theory Spec2Isabelle
  imports Main "HOL-Library.Sublist"
begin

section \<open>Python strings\<close>

text \<open>
  A Python \<open>str\<close> is a sequence of Unicode code points, so it is modelled as a list of
  natural numbers: \<open>len\<close>, slicing and the substring test \<open>k in s\<close> count code points.
  \<open>ascii\<close> turns a literal of ASCII characters into such a string.
\<close>

type_synonym pystr = "nat list"

definition ascii :: "string \<Rightarrow> pystr" where
  "ascii s = map of_char s"

text \<open>
  \<open>str.lower\<close> follows the case mapping of all of Unicode, which is not written out
  here: the functions that lower-case a text take \<open>str.lower\<close> as their first argument
  \<open>lw\<close>. On a text of ASCII characters \<open>str.lower\<close> maps \<open>A\<close>..\<open>Z\<close> to \<open>a\<close>..\<open>z\<close> and
  nothing else; \<open>ascii_lower\<close> is that function, which the examples over ASCII text use.
\<close>

definition lower_char :: "nat \<Rightarrow> nat" where
  "lower_char c = (if 65 \<le> c \<and> c \<le> 90 then c + 32 else c)"

definition ascii_lower :: "pystr \<Rightarrow> pystr" where
  "ascii_lower s = map lower_char s"

text \<open>\<open>str.isspace\<close> of one code point: the code points Python 3 treats as whitespace.\<close>

definition isspace :: "nat \<Rightarrow> bool" where
  "isspace c = (c \<in> set [0x9, 0xA, 0xB, 0xC, 0xD, 0x1C, 0x1D, 0x1E, 0x1F, 0x20, 0x85, 0xA0,
     0x1680, 0x2000, 0x2001, 0x2002, 0x2003, 0x2004, 0x2005, 0x2006, 0x2007, 0x2008,
     0x2009, 0x200A, 0x2028, 0x2029, 0x202F, 0x205F, 0x3000])"

text \<open>\<open>str.strip()\<close>: leading and trailing whitespace removed.\<close>

definition strip :: "pystr \<Rightarrow> pystr" where
  "strip s = rev (dropWhile isspace (rev (dropWhile isspace s)))"

text \<open>\<open>sep.join(parts)\<close>.\<close>

fun join :: "pystr \<Rightarrow> pystr list \<Rightarrow> pystr" where
  "join sep [] = []"
| "join sep [p] = p"
| "join sep (p # q # ps) = p @ sep @ join sep (q # ps)"

text \<open>
  \<open>k in s\<close> on strings is the contiguous-sublist test \<^const>\<open>sublist\<close> \<open>k s\<close>, and
  \<open>s.startswith(k)\<close> is \<^const>\<open>prefix\<close> \<open>k s\<close>.

  \<open>s.replace(old, new)\<close>: every non-overlapping occurrence of \<open>old\<close>, found from the
  left, is replaced. With an empty \<open>old\<close>, \<open>new\<close> is put before every code point and
  at the end.
\<close>

function replace_scan :: "pystr \<Rightarrow> pystr \<Rightarrow> pystr \<Rightarrow> pystr" where
  "replace_scan old new [] = []"
| "replace_scan old new (c # cs) =
     (if old \<noteq> [] \<and> prefix old (c # cs)
      then new @ replace_scan old new (drop (length old) (c # cs))
      else c # replace_scan old new cs)"
  by pat_completeness auto
termination
  by (relation "measure (\<lambda>(old, new, s). length s)") (auto simp: neq_Nil_conv)

definition replace :: "pystr \<Rightarrow> pystr \<Rightarrow> pystr \<Rightarrow> pystr" where
  "replace s old new =
     (if old = [] then new @ concat (map (\<lambda>c. c # new) s) else replace_scan old new s)"

section \<open>The slide classifier\<close>

text \<open>
  \<open>SlideInfo\<close>: the summary of one slide. \<open>text_elements\<close> holds one pair
  (shape name, stripped text) per shape with a non-empty text.
\<close>

record slide_info =
  info_index :: nat
  info_type :: pystr
  layout_name :: pystr
  text_elements :: "(pystr \<times> pystr) list"
  shape_count :: nat
  preview_text :: pystr

text \<open>
  \<open>re.match(r'^[0-9\<dots>]+$', text)\<close> with the ASCII digits and the full-width digits
  U+FF10..U+FF19 in the class: one or more digits up to the end of the string, where
  \<open>$\<close> also matches just before a final newline.
\<close>

definition is_digit :: "nat \<Rightarrow> bool" where
  "is_digit c = ((48 \<le> c \<and> c \<le> 57) \<or> (0xFF10 \<le> c \<and> c \<le> 0xFF19))"

definition match_digits :: "pystr \<Rightarrow> bool" where
  "match_digits text =
     (let ds = takeWhile is_digit text; rest = dropWhile is_digit text
      in ds \<noteq> [] \<and> (rest = [] \<or> rest = [10]))"

definition cover_keywords :: "pystr list" where
  "cover_keywords = [ascii ''title'', ascii ''cover'', [0x5C01, 0x9762]]"

definition section_keywords :: "pystr list" where
  "section_keywords = [ascii ''section'', ascii ''divider'', [0x7AE0, 0x8282]]"

definition toc_keywords :: "pystr list" where
  "toc_keywords = [[0x76EE, 0x5F55], ascii ''contents'', ascii ''agenda'']"

definition ending_keywords :: "pystr list" where
  "ending_keywords = [[0x8C22, 0x8C22], ascii ''thank'', [0x611F, 0x8C22], [0x8046, 0x542C]]"

definition numbered_tokens :: "pystr list" where
  "numbered_tokens = [ascii ''01'', ascii ''02'', ascii ''03'', ascii ''04'', ascii ''05'']"

text \<open>\<open>PPTCloner._infer_slide_type\<close>. The argument \<open>total\<close> (here \<open>total_slides\<close>) is not read.\<close>

definition infer_slide_type :: "(pystr \<Rightarrow> pystr) \<Rightarrow> slide_info \<Rightarrow> nat \<Rightarrow> nat \<Rightarrow> pystr" where
  "infer_slide_type lw info idx total_slides =
     (let layout_lower = lw (layout_name info);
          all_text = join (ascii '' '') (map (\<lambda>t. lw (snd t)) (text_elements info))
      in if idx = 0 then ascii ''cover''
         else if list_ex (\<lambda>k. sublist k layout_lower) cover_keywords then ascii ''cover''
         else if list_ex (\<lambda>k. sublist k layout_lower) section_keywords then ascii ''divider''
         else if list_ex (\<lambda>k. sublist k all_text) toc_keywords then ascii ''toc''
         else if list_ex (\<lambda>k. sublist k all_text) ending_keywords then ascii ''ending''
         else if length (text_elements info) \<le> 4 \<and>
                 list_ex (\<lambda>t. match_digits (strip (snd t)) \<or> strip (snd t) \<in> set numbered_tokens)
                   (text_elements info)
              then ascii ''divider''
         else ascii ''content'')"

section \<open>Shapes, slides and the presentation package\<close>

text \<open>
  The document model is python-pptx's. A text frame is a list of paragraphs; a
  paragraph holds runs, line breaks and fields. \<open>has_text_frame\<close> is false for a shape
  whose \<open>text_frame\<close> is \<open>None\<close> here (pictures, tables, group shapes).
\<close>

datatype para_elem = Run pystr | LineBreak | Field pystr

record shape =
  shape_name :: pystr
  text_frame :: "para_elem list list option"

record slide =
  slide_layout :: "pystr option"
  shapes :: "shape list"

text \<open>
  Reading text: a paragraph's text is the text of its elements, a line break reading
  as a vertical tab; \<open>text_frame.text\<close> joins the paragraphs with a line feed.
\<close>

fun elem_text :: "para_elem \<Rightarrow> pystr" where
  "elem_text (Run t) = t"
| "elem_text LineBreak = [11]"
| "elem_text (Field t) = t"

definition paragraph_text :: "para_elem list \<Rightarrow> pystr" where
  "paragraph_text p = concat (map elem_text p)"

definition frame_text :: "para_elem list list \<Rightarrow> pystr" where
  "frame_text ps = join [10] (map paragraph_text ps)"

text \<open>
  Writing a run, \<open>run.text = value\<close>: python-pptx stores the value with every C0 control
  character other than tab, line feed and carriage return written as \<open>_xHHHH_\<close>, its
  code in four upper-case hexadecimal digits; reading \<open>run.text\<close> gives the stored text.
\<close>

definition hex_digit :: "nat \<Rightarrow> nat" where
  "hex_digit d = (if d < 10 then 48 + d else 55 + d)"

definition escape_char :: "nat \<Rightarrow> pystr" where
  "escape_char c =
     (if c \<le> 8 \<or> c = 11 \<or> c = 12 \<or> (14 \<le> c \<and> c \<le> 31)
      then ascii ''_x00'' @ [hex_digit (c div 16), hex_digit (c mod 16)] @ ascii ''_''
      else [c])"

definition escape :: "pystr \<Rightarrow> pystr" where
  "escape s = concat (map escape_char s)"

text \<open>
  Writing text, \<open>shape.text = value\<close>: the frame's content is replaced by one paragraph
  per line of the value (split at line feeds); within a line a vertical tab becomes a
  line break, and a piece that is empty gets no run; each run is written as above.
\<close>

fun split_on :: "nat \<Rightarrow> pystr \<Rightarrow> pystr list" where
  "split_on sep [] = [[]]"
| "split_on sep (c # cs) =
     (if c = sep then [] # split_on sep cs
      else (case split_on sep cs of [] \<Rightarrow> [[c]] | p # ps \<Rightarrow> (c # p) # ps))"

fun append_text :: "pystr list \<Rightarrow> para_elem list" where
  "append_text [] = []"
| "append_text [r] = (if r = [] then [] else [Run (escape r)])"
| "append_text (r # r' # rs) =
     (if r = [] then [] else [Run (escape r)]) @ LineBreak # append_text (r' # rs)"

definition set_text :: "shape \<Rightarrow> pystr \<Rightarrow> shape" where
  "set_text sh v = sh\<lparr>text_frame := Some (map (\<lambda>line. append_text (split_on 11 line)) (split_on 10 v))\<rparr>"

section \<open>Text substitution\<close>

text \<open>
  A replacement dictionary is a Python \<open>dict\<close>: its items in insertion order, as an
  association list. \<open>key in d\<close> and \<open>d[key]\<close> are \<^const>\<open>map_of\<close>.
\<close>

type_synonym replacements = "(pystr \<times> pystr) list"

text \<open>
  The body of the innermost loop of \<open>_apply_replacements\<close>: one dictionary item applied
  to the running text \<open>original\<close> of a run. The new text is written to the run and
  \<open>original\<close> is read back from it.
\<close>

fun replace_step :: "pystr \<Rightarrow> pystr \<times> pystr \<Rightarrow> pystr" where
  "replace_step original (old_text, new_text) =
     (if prefix (ascii ''shape:'') old_text then original
      else if sublist old_text original then escape (replace original old_text new_text)
      else original)"

text \<open>One run: skipped when its text is empty, else every item in dictionary order.\<close>

definition replace_in_run :: "replacements \<Rightarrow> pystr \<Rightarrow> pystr" where
  "replace_in_run repl text = (if text = [] then text else foldl replace_step text repl)"

fun replace_in_elem :: "replacements \<Rightarrow> para_elem \<Rightarrow> para_elem" where
  "replace_in_elem repl (Run t) = Run (replace_in_run repl t)"
| "replace_in_elem repl LineBreak = LineBreak"
| "replace_in_elem repl (Field t) = Field t"

text \<open>The body of the loop over \<open>slide.shapes\<close> in \<open>_apply_replacements\<close>.\<close>

definition replace_in_shape :: "replacements \<Rightarrow> shape \<Rightarrow> shape" where
  "replace_in_shape repl sh =
     (case text_frame sh of
        None \<Rightarrow> sh
      | Some ps \<Rightarrow>
          (let shape_name_key = ascii ''shape:'' @ shape_name sh in
           case map_of repl shape_name_key of
             Some v \<Rightarrow> set_text sh v
           | None \<Rightarrow>
               (let full_text = strip (frame_text ps) in
                case map_of repl full_text of
                  Some v \<Rightarrow> set_text sh v
                | None \<Rightarrow> sh\<lparr>text_frame := Some (map (map (replace_in_elem repl)) ps)\<rparr>)))"

text \<open>\<open>PPTCloner._apply_replacements\<close>.\<close>

definition apply_replacements :: "slide \<Rightarrow> replacements \<Rightarrow> slide" where
  "apply_replacements sl repl = sl\<lparr>shapes := map (replace_in_shape repl) (shapes sl)\<rparr>"

section \<open>The presentation and the file system\<close>

text \<open>
  A presentation part holds the slide id list \<open>_sldIdLst\<close>, whose entries name
  relationships by their \<open>rId\<close>, and the relationships, which lead to the slide parts.
  \<open>prs.slides[i]\<close> is the slide related by the \<open>i\<close>-th entry.
\<close>

type_synonym rid = nat

record presentation =
  sldIdLst :: "rid list"
  rels :: "rid \<rightharpoonup> slide"

datatype error = FileNotFoundError | PackageNotFoundError | JSONDecodeError | IndexError | KeyError
  | OSError

text \<open>\<open>prs.slides[idx]\<close> for an index that is not negative.\<close>

definition slide_at :: "presentation \<Rightarrow> nat \<Rightarrow> error + rid \<times> slide" where
  "slide_at prs idx =
     (if idx < length (sldIdLst prs)
      then (case rels prs (sldIdLst prs ! idx) of
              None \<Rightarrow> Inl KeyError
            | Some sl \<Rightarrow> Inr (sldIdLst prs ! idx, sl))
      else Inl IndexError)"

text \<open>Iterating \<open>prs.slides\<close>.\<close>

fun related_slides :: "(rid \<rightharpoonup> slide) \<Rightarrow> rid list \<Rightarrow> error + slide list" where
  "related_slides rs [] = Inr []"
| "related_slides rs (r # rest) =
     (case rs r of
        None \<Rightarrow> Inl KeyError
      | Some sl \<Rightarrow> (case related_slides rs rest of Inl e \<Rightarrow> Inl e | Inr sls \<Rightarrow> Inr (sl # sls)))"

text \<open>
  \<open>prs.part.drop_rel(rId)\<close>: python-pptx removes the relationship when fewer than two
  references to the \<open>rId\<close> are left in the part; of the presentation part's references
  the slide id list is modelled. \<open>del prs.slides._sldIdLst[idx]\<close> removes one entry.
\<close>

definition drop_rel :: "rid \<Rightarrow> presentation \<Rightarrow> presentation" where
  "drop_rel rId prs =
     (if count_list (sldIdLst prs) rId < 2 then prs\<lparr>rels := (rels prs)(rId := None)\<rparr> else prs)"

definition del_sldId :: "nat \<Rightarrow> presentation \<Rightarrow> presentation" where
  "del_sldId idx prs = prs\<lparr>sldIdLst := take idx (sldIdLst prs) @ drop (Suc idx) (sldIdLst prs)\<rparr>"

text \<open>The body of the deletion loop: read the entry's \<open>rId\<close>, drop it, delete the entry.\<close>

definition delete_slide :: "nat \<Rightarrow> presentation \<Rightarrow> error + presentation" where
  "delete_slide idx prs =
     (if idx < length (sldIdLst prs)
      then Inr (del_sldId idx (drop_rel (sldIdLst prs ! idx) prs))
      else Inl IndexError)"

fun delete_loop :: "nat list \<Rightarrow> presentation \<Rightarrow> error + presentation" where
  "delete_loop [] prs = Inr prs"
| "delete_loop (idx # rest) prs =
     (case delete_slide idx prs of Inl e \<Rightarrow> Inl e | Inr prs' \<Rightarrow> delete_loop rest prs')"

text \<open>Files: a presentation package, a content plan in JSON, an exported analysis, or anything else.\<close>

record plan_item =
  template_slide :: "int option"
  item_type :: "pystr option"
  item_replacements :: "replacements option"

record analysis =
  slide_count :: nat
  slides :: "slide_info list"
  slide_types :: "pystr \<rightharpoonup> nat list"

datatype file_content = Pptx presentation | PlanJson "plan_item list" | AnalysisJson analysis
  | OtherFile

text \<open>
  The file system: the entries, each under the one name its paths resolve to, the
  resolution of paths (the current directory, \<open>.\<close> and \<open>..\<close>, links), and the names that can
  be opened for writing (not a directory, its directory exists, permissions allow it).
  Two paths name the same file when they resolve alike, however they are spelled. The
  program changes neither the resolution nor what can be written.
\<close>

record filesystem =
  files :: "pystr \<rightharpoonup> file_content"
  resolve :: "pystr \<Rightarrow> pystr"
  writable :: "pystr \<Rightarrow> bool"

definition read_file :: "filesystem \<Rightarrow> pystr \<Rightarrow> file_content option" where
  "read_file fs path = files fs (resolve fs path)"

text \<open>
  Opening a path for writing and writing the content: where the name cannot be opened
  for writing, the opening raises an \<open>OSError\<close> and nothing is written. A failure after
  the file has been opened (a full disk) is not modelled.
\<close>

definition write_file :: "pystr \<Rightarrow> file_content \<Rightarrow> filesystem \<Rightarrow> error + filesystem" where
  "write_file path content fs =
     (if writable fs (resolve fs path)
      then Inr (fs\<lparr>files := (files fs)(resolve fs path \<mapsto> content)\<rparr>)
      else Inl OSError)"

text \<open>\<open>Presentation(path)\<close>: the package is read into memory; the file is not written.\<close>

definition open_presentation :: "filesystem \<Rightarrow> pystr \<Rightarrow> error + presentation" where
  "open_presentation fs path =
     (case read_file fs path of Some (Pptx prs) \<Rightarrow> Inr prs | _ \<Rightarrow> Inl PackageNotFoundError)"

text \<open>\<open>prs.save(path)\<close>.\<close>

definition save :: "presentation \<Rightarrow> pystr \<Rightarrow> filesystem \<Rightarrow> error + filesystem" where
  "save prs path fs = write_file path (Pptx prs) fs"

section \<open>Template analysis\<close>

text \<open>\<open>PPTCloner._analyze_slide\<close>.\<close>

definition analyze_slide :: "(pystr \<Rightarrow> pystr) \<Rightarrow> slide \<Rightarrow> nat \<Rightarrow> nat \<Rightarrow> slide_info" where
  "analyze_slide lw sl idx total_slides =
     (let texts = concat (map (\<lambda>sh. case text_frame sh of
                                      None \<Rightarrow> []
                                    | Some ps \<Rightarrow> (let text = strip (frame_text ps)
                                                 in if text = [] then [] else [(shape_name sh, text)]))
                          (shapes sl));
          info = \<lparr>info_index = idx, info_type = ascii ''content'',
                  layout_name = (case slide_layout sl of Some name \<Rightarrow> name | None \<Rightarrow> ascii ''Unknown''),
                  text_elements = texts,
                  shape_count = length (shapes sl),
                  preview_text = (case texts of [] \<Rightarrow> [] | t # _ \<Rightarrow> take 50 (snd t))\<rparr>
      in info\<lparr>info_type := infer_slide_type lw info idx total_slides\<rparr>)"

text \<open>
  \<open>PPTCloner._analyze_template\<close>. Of the analysis record the slide count, the slide
  summaries and the map from category to positions are modelled; the file name and
  the page size in points (floating point) are left out.
\<close>

fun analyze_loop :: "(pystr \<Rightarrow> pystr) \<Rightarrow> slide list \<Rightarrow> nat \<Rightarrow> nat \<Rightarrow> analysis \<Rightarrow> analysis" where
  "analyze_loop lw [] idx total_slides result = result"
| "analyze_loop lw (sl # rest) idx total_slides result =
     (let info = analyze_slide lw sl idx total_slides
      in analyze_loop lw rest (idx + 1) total_slides
           (result\<lparr>slides := slides result @ [info],
                   slide_types := (slide_types result)
                     (info_type info \<mapsto>
                        (case slide_types result (info_type info) of None \<Rightarrow> [] | Some l \<Rightarrow> l) @ [idx])\<rparr>))"

definition analyze_template :: "(pystr \<Rightarrow> pystr) \<Rightarrow> filesystem \<Rightarrow> pystr \<Rightarrow> error + analysis" where
  "analyze_template lw fs path =
     (case open_presentation fs path of
        Inl e \<Rightarrow> Inl e
      | Inr prs \<Rightarrow>
          (case related_slides (rels prs) (sldIdLst prs) of
             Inl e \<Rightarrow> Inl e
           | Inr sls \<Rightarrow>
               Inr (analyze_loop lw sls 0 (length (sldIdLst prs))
                      \<lparr>slide_count = length (sldIdLst prs), slides = [], slide_types = Map.empty\<rparr>)))"

text \<open>The \<open>PPTCloner\<close> object and its constructor.\<close>

record cloner =
  template_path :: pystr
  analysis_of :: analysis

definition PPTCloner :: "(pystr \<Rightarrow> pystr) \<Rightarrow> filesystem \<Rightarrow> pystr \<Rightarrow> error + cloner" where
  "PPTCloner lw fs path =
     (if read_file fs path = None then Inl FileNotFoundError
      else (case analyze_template lw fs path of
              Inl e \<Rightarrow> Inl e
            | Inr a \<Rightarrow> Inr \<lparr>template_path = path, analysis_of = a\<rparr>))"

definition get_slides_by_type :: "cloner \<Rightarrow> pystr \<Rightarrow> nat list" where
  "get_slides_by_type self slide_type =
     (case slide_types (analysis_of self) slide_type of None \<Rightarrow> [] | Some l \<Rightarrow> l)"

section \<open>Plan resolution\<close>

text \<open>
  One plan entry resolved to a template position, as both \<open>main\<close> and
  \<open>create_from_plan\<close> do it, and the entry's replacement dictionary.
\<close>

definition resolve_item :: "cloner \<Rightarrow> plan_item \<Rightarrow> int" where
  "resolve_item self item =
     (case template_slide item of
        Some template_idx \<Rightarrow> template_idx
      | None \<Rightarrow>
          (let slide_type = (case item_type item of Some t \<Rightarrow> t | None \<Rightarrow> ascii ''content'')
           in case get_slides_by_type self slide_type of [] \<Rightarrow> 0 | first # _ \<Rightarrow> int first))"

definition replacements_of :: "plan_item \<Rightarrow> replacements" where
  "replacements_of item = (case item_replacements item of Some r \<Rightarrow> r | None \<Rightarrow> [])"

section \<open>Creating a presentation\<close>

text \<open>
  \<open>set(range(total)) - set(slide_indices)\<close>, as the list of its members. The deletion
  loop runs over \<open>sorted(to_delete, reverse=True)\<close>.
\<close>

definition to_delete :: "nat \<Rightarrow> int list \<Rightarrow> nat list" where
  "to_delete total_slides slide_indices = filter (\<lambda>i. int i \<notin> set slide_indices) [0..<total_slides]"

definition deletion_order :: "nat \<Rightarrow> int list \<Rightarrow> nat list" where
  "deletion_order total_slides slide_indices = rev (sort (to_delete total_slides slide_indices))"

text \<open>The index map of \<open>create_simple\<close>: one step of the counter per entry of \<open>sorted(slide_indices)\<close>.\<close>

fun map_sorted :: "int list \<Rightarrow> nat \<Rightarrow> (int \<rightharpoonup> nat) \<Rightarrow> (int \<rightharpoonup> nat)" where
  "map_sorted [] new_idx old_to_new = old_to_new"
| "map_sorted (old_idx # rest) new_idx old_to_new =
     map_sorted rest (new_idx + 1) (old_to_new(old_idx \<mapsto> new_idx))"

text \<open>The replacement loop of \<open>create_simple\<close> over \<open>enumerate(slide_indices)\<close>.\<close>

fun replace_loop :: "(int \<rightharpoonup> nat) \<Rightarrow> replacements list \<Rightarrow> (nat \<times> int) list \<Rightarrow> presentation
    \<Rightarrow> error + presentation" where
  "replace_loop old_to_new replacements_list [] prs = Inr prs"
| "replace_loop old_to_new replacements_list ((i, old_idx) # rest) prs =
     (case old_to_new old_idx of
        None \<Rightarrow> replace_loop old_to_new replacements_list rest prs
      | Some new_idx \<Rightarrow>
          (if i < length replacements_list
           then (case slide_at prs new_idx of
                   Inl e \<Rightarrow> Inl e
                 | Inr (rId, sl) \<Rightarrow>
                     replace_loop old_to_new replacements_list rest
                       (prs\<lparr>rels := (rels prs)(rId \<mapsto> apply_replacements sl (replacements_list ! i))\<rparr>))
           else replace_loop old_to_new replacements_list rest prs))"

text \<open>
  \<open>PPTCloner.create_simple\<close>. The file system is passed through: it is returned as it
  was when an exception ends the run, that of \<open>prs.save\<close> included, and with the saved
  output otherwise.
\<close>

definition create_simple ::
    "filesystem \<Rightarrow> cloner \<Rightarrow> int list \<Rightarrow> replacements list \<Rightarrow> pystr \<Rightarrow> filesystem \<times> (error + pystr)" where
  "create_simple fs self slide_indices replacements_list output_path =
     (case open_presentation fs (template_path self) of
        Inl e \<Rightarrow> (fs, Inl e)
      | Inr prs \<Rightarrow>
          (let total_slides = length (sldIdLst prs)
           in case delete_loop (deletion_order total_slides slide_indices) prs of
                Inl e \<Rightarrow> (fs, Inl e)
              | Inr prs1 \<Rightarrow>
                  (let old_to_new = map_sorted (sort slide_indices) 0 Map.empty
                   in case replace_loop old_to_new replacements_list (enumerate 0 slide_indices) prs1 of
                        Inl e \<Rightarrow> (fs, Inl e)
                      | Inr prs2 \<Rightarrow>
                          (case save prs2 output_path fs of
                             Inl e \<Rightarrow> (fs, Inl e)
                           | Inr fs' \<Rightarrow> (fs', Inr output_path)))))"

text \<open>
  \<open>PPTCloner.create_from_plan\<close>: the index map is built over the original positions,
  counting those that were not deleted.
\<close>

fun map_survivors :: "nat list \<Rightarrow> nat list \<Rightarrow> nat \<Rightarrow> (int \<rightharpoonup> nat) \<Rightarrow> (int \<rightharpoonup> nat)" where
  "map_survivors [] indices_to_delete new_idx old_to_new = old_to_new"
| "map_survivors (old_idx # rest) indices_to_delete new_idx old_to_new =
     (if old_idx \<notin> set indices_to_delete
      then map_survivors rest indices_to_delete (new_idx + 1) (old_to_new(int old_idx \<mapsto> new_idx))
      else map_survivors rest indices_to_delete new_idx old_to_new)"

fun replace_loop_plan :: "(int \<rightharpoonup> nat) \<Rightarrow> (int \<times> replacements) list \<Rightarrow> presentation
    \<Rightarrow> error + presentation" where
  "replace_loop_plan old_to_new [] prs = Inr prs"
| "replace_loop_plan old_to_new ((source_idx, repl) # rest) prs =
     (case old_to_new source_idx of
        None \<Rightarrow> replace_loop_plan old_to_new rest prs
      | Some new_idx \<Rightarrow>
          (case slide_at prs new_idx of
             Inl e \<Rightarrow> Inl e
           | Inr (rId, sl) \<Rightarrow>
               replace_loop_plan old_to_new rest
                 (prs\<lparr>rels := (rels prs)(rId \<mapsto> apply_replacements sl repl)\<rparr>)))"

definition create_from_plan ::
    "filesystem \<Rightarrow> cloner \<Rightarrow> plan_item list \<Rightarrow> pystr \<Rightarrow> filesystem \<times> (error + pystr)" where
  "create_from_plan fs self content_plan output_path =
     (case open_presentation fs (template_path self) of
        Inl e \<Rightarrow> (fs, Inl e)
      | Inr prs \<Rightarrow>
          (let slides_to_keep = map (\<lambda>item. (resolve_item self item, replacements_of item)) content_plan;
               total_slides = length (sldIdLst prs);
               indices_to_delete = to_delete total_slides (map fst slides_to_keep)
           in case delete_loop (rev (sort indices_to_delete)) prs of
                Inl e \<Rightarrow> (fs, Inl e)
              | Inr prs1 \<Rightarrow>
                  (let old_to_new = map_survivors [0..<total_slides] indices_to_delete 0 Map.empty
                   in case replace_loop_plan old_to_new slides_to_keep prs1 of
                        Inl e \<Rightarrow> (fs, Inl e)
                      | Inr prs2 \<Rightarrow>
                          (case save prs2 output_path fs of
                             Inl e \<Rightarrow> (fs, Inl e)
                           | Inr fs' \<Rightarrow> (fs', Inr output_path)))))"

section \<open>The command line\<close>

text \<open>
  How a run of \<open>main\<close> ends: it returns, it calls \<open>sys.exit(n)\<close>, or an exception is not
  caught. The interpreter exits with 0 after a return and with 1 after an uncaught
  exception. What \<open>main\<close> prints is not modelled.
\<close>

datatype outcome = Returned | SysExit nat | Uncaught error

fun exit_code :: "outcome \<Rightarrow> nat" where
  "exit_code Returned = 0"
| "exit_code (SysExit n) = n"
| "exit_code (Uncaught e) = 1"

text \<open>\<open>json.load(open(plan_path))\<close>.\<close>

definition load_plan :: "filesystem \<Rightarrow> pystr \<Rightarrow> error + plan_item list" where
  "load_plan fs path =
     (case read_file fs path of
        None \<Rightarrow> Inl FileNotFoundError
      | Some (PlanJson content_plan) \<Rightarrow> Inr content_plan
      | Some _ \<Rightarrow> Inl JSONDecodeError)"

text \<open>\<open>PPTCloner.export_analysis\<close>.\<close>

definition export_analysis :: "cloner \<Rightarrow> pystr \<Rightarrow> filesystem \<Rightarrow> error + filesystem" where
  "export_analysis self output_path fs = write_file output_path (AnalysisJson (analysis_of self)) fs"

definition main :: "(pystr \<Rightarrow> pystr) \<Rightarrow> pystr list \<Rightarrow> filesystem \<Rightarrow> filesystem \<times> outcome" where
  "main lw argv fs =
     (if length argv < 2 then (fs, SysExit 1)
      else if argv ! 1 = ascii ''analyze'' then
        (if length argv < 3 then (fs, SysExit 1)
         else (case PPTCloner lw fs (argv ! 2) of
                 Inl e \<Rightarrow> (fs, Uncaught e)
               | Inr self \<Rightarrow>
                   (if length argv > 3 \<and> argv ! 3 \<noteq> []
                    then (case export_analysis self (argv ! 3) fs of
                            Inl e \<Rightarrow> (fs, Uncaught e)
                          | Inr fs' \<Rightarrow> (fs', Returned))
                    else (fs, Returned))))
      else if argv ! 1 = ascii ''create'' then
        (if length argv < 5 then (fs, SysExit 1)
         else (case load_plan fs (argv ! 3) of
                 Inl e \<Rightarrow> (fs, Uncaught e)
               | Inr content_plan \<Rightarrow>
                   (case PPTCloner lw fs (argv ! 2) of
                      Inl e \<Rightarrow> (fs, Uncaught e)
                    | Inr self \<Rightarrow>
                        (case create_simple fs self (map (resolve_item self) content_plan)
                                (map replacements_of content_plan) (argv ! 4) of
                           (fs', Inl e) \<Rightarrow> (fs', Uncaught e)
                         | (fs', Inr _) \<Rightarrow> (fs', Returned)))))
      else (fs, SysExit 1))"

section \<open>Notions used in the statements\<close>

text \<open>A numeric token: a non-empty string of ASCII or full-width digits, of any length.\<close>

definition numeric_token :: "pystr \<Rightarrow> bool" where
  "numeric_token s = (s \<noteq> [] \<and> list_all is_digit s)"


section \<open>An example template\<close>

text \<open>
  A template of three slides with one text box each, reading \<open>A\<close>, \<open>B\<close> and \<open>C\<close>, stored
  as \<open>t.pptx\<close>. The slide at position 0 is the cover; the other two are content.
\<close>

definition example_slide :: "pystr \<Rightarrow> slide" where
  "example_slide t =
     \<lparr>slide_layout = Some (ascii ''Blank''),
      shapes = [\<lparr>shape_name = ascii ''TextBox 1'', text_frame = Some [[Run t]]\<rparr>]\<rparr>"

definition example_template :: presentation where
  "example_template =
     \<lparr>sldIdLst = [7, 8, 9],
      rels = [7 \<mapsto> example_slide (ascii ''A''), 8 \<mapsto> example_slide (ascii ''B''),
              9 \<mapsto> example_slide (ascii ''C'')]\<rparr>"

text \<open>
  In the example file system a path may begin with \<open>./\<close>, which names the same file as
  the path without it; there is no directory \<open>out\<close>, so that nothing can be written
  under it.
\<close>

definition example_resolve :: "pystr \<Rightarrow> pystr" where
  "example_resolve path = (if prefix (ascii ''./'') path then drop 2 path else path)"

definition example_fs :: filesystem where
  "example_fs =
     \<lparr>files = [ascii ''t.pptx'' \<mapsto> Pptx example_template],
      resolve = example_resolve,
      writable = (\<lambda>name. \<not> prefix (ascii ''out/'') name)\<rparr>"

text \<open>What a test reads off a saved presentation: the texts of its slides, in order.\<close>

definition slide_texts :: "presentation \<Rightarrow> pystr list list" where
  "slide_texts prs =
     map (\<lambda>r. case rels prs r of
                 None \<Rightarrow> []
               | Some sl \<Rightarrow> concat (map (\<lambda>sh. case text_frame sh of None \<Rightarrow> [] | Some ps \<Rightarrow> [frame_text ps])
                                      (shapes sl)))
         (sldIdLst prs)"

definition saved_texts :: "filesystem \<Rightarrow> pystr \<Rightarrow> pystr list list option" where
  "saved_texts fs path =
     (case read_file fs path of Some (Pptx prs) \<Rightarrow> Some (slide_texts prs) | _ \<Rightarrow> None)"

text \<open>The cloner that \<open>PPTCloner('t.pptx')\<close> builds from the example template.\<close>

definition example_cloner :: cloner where
  "example_cloner =
     \<lparr>template_path = ascii ''t.pptx'',
      analysis_of = analyze_loop ascii_lower
        [example_slide (ascii ''A''), example_slide (ascii ''B''), example_slide (ascii ''C'')] 0
        (length [7, 8, 9 :: rid])
        \<lparr>slide_count = length [7, 8, 9 :: rid], slides = [], slide_types = Map.empty\<rparr>\<rparr>"

text \<open>The example file system with a content plan stored as \<open>plan.json\<close>.\<close>

definition example_fs_plan :: "plan_item list \<Rightarrow> filesystem" where
  "example_fs_plan content_plan =
     example_fs\<lparr>files := (files example_fs)(ascii ''plan.json'' \<mapsto> PlanJson content_plan)\<rparr>"

text \<open>Plan entries that name a template position, with or without replacements.\<close>

definition entry :: "int \<Rightarrow> replacements \<Rightarrow> plan_item" where
  "entry template_idx repl =
     \<lparr>template_slide = Some template_idx, item_type = None, item_replacements = Some repl\<rparr>"

section \<open>Properties of the classifier\<close>

lemma strip_last: "strip x \<noteq> [] \<Longrightarrow> \<not> isspace (last (strip x))"
  unfolding strip_def by (simp add: last_rev hd_dropWhile)

lemma isspace_newline: "isspace 10"
  by (simp add: isspace_def)

text \<open>On a stripped text the regular expression accepts exactly the numeric tokens.\<close>

lemma match_digits_strip: "match_digits (strip x) = numeric_token (strip x)"
proof (cases "dropWhile is_digit (strip x) = [10]")
  case True
  then have ne: "strip x \<noteq> []" by auto
  have "last (strip x) = last (dropWhile is_digit (strip x))"
    by (metis True takeWhile_dropWhile_id last_appendR list.distinct(1))
  with True have "last (strip x) = 10" by simp
  with strip_last[OF ne] isspace_newline show ?thesis by simp
next
  case False
  show ?thesis
  proof (cases "list_all is_digit (strip x)")
    case True
    then have tw: "takeWhile is_digit (strip x) = strip x"
      and dw: "dropWhile is_digit (strip x) = []"
      by (simp_all add: list_all_iff)
    show ?thesis
      unfolding match_digits_def numeric_token_def Let_def tw dw using True by simp
  next
    case notall: False
    then have "dropWhile is_digit (strip x) \<noteq> []"
      by (simp add: list_all_iff)
    with False notall show ?thesis
      unfolding match_digits_def numeric_token_def Let_def by simp
  qed
qed

lemma numbered_tokens_numeric: "s \<in> set numbered_tokens \<Longrightarrow> numeric_token s"
  by (auto simp: numbered_tokens_def numeric_token_def ascii_def is_digit_def)

text \<open>
  C4 (as amended). The category is decided by the first rule that applies: position 0
  is a cover; else a cover keyword in the lower-cased layout name gives a cover and a
  section keyword a divider; else a table-of-contents keyword in the joined lower-cased
  texts gives \<open>toc\<close> and a closing keyword \<open>ending\<close>; else a slide with at most four text
  elements, one of which is (once stripped) a numeric token of any length, is a
  divider; else the slide is content. The result is a function of the summary and the
  position alone. Lower-casing is \<open>lw\<close>, Python's \<open>str.lower\<close>: the statement holds of
  whatever it maps, the characters outside ASCII included.
\<close>

theorem infer_slide_type_precedence:
  "infer_slide_type lw info idx n =
     (if idx = 0 then ascii ''cover''
      else if \<exists>k \<in> set cover_keywords. sublist k (lw (layout_name info)) then ascii ''cover''
      else if \<exists>k \<in> set section_keywords. sublist k (lw (layout_name info)) then ascii ''divider''
      else if \<exists>k \<in> set toc_keywords.
                sublist k (join (ascii '' '') (map (\<lambda>t. lw (snd t)) (text_elements info)))
           then ascii ''toc''
      else if \<exists>k \<in> set ending_keywords.
                sublist k (join (ascii '' '') (map (\<lambda>t. lw (snd t)) (text_elements info)))
           then ascii ''ending''
      else if length (text_elements info) \<le> 4 \<and>
              (\<exists>t \<in> set (text_elements info). numeric_token (strip (snd t)))
           then ascii ''divider''
      else ascii ''content'')"
proof -
  have tok: "(match_digits (strip s) \<or> strip s \<in> set numbered_tokens) = numeric_token (strip s)" for s
    using numbered_tokens_numeric[of "strip s"] match_digits_strip[of s] by blast
  show ?thesis
    unfolding infer_slide_type_def Let_def list_ex_iff tok by simp
qed

text \<open>
  C4, counterexample to the claim as written: the numeric token need not be short. A
  slide at position 1 whose only text is a number of 24 digits is a divider.
\<close>

theorem infer_slide_type_long_token:
  "length (ascii ''123456789012345678901234'') = 24 \<and>
   infer_slide_type ascii_lower
     \<lparr>info_index = 1, info_type = ascii ''content'', layout_name = ascii ''Blank'',
      text_elements = [(ascii ''TextBox 1'', ascii ''123456789012345678901234'')],
      shape_count = 1, preview_text = ascii ''123456789012345678901234''\<rparr> 1 2 = ascii ''divider''"
  by (simp add: infer_slide_type_def ascii_def sublist_code(3) ascii_lower_def lower_char_def
      cover_keywords_def section_keywords_def toc_keywords_def ending_keywords_def
      match_digits_def is_digit_def strip_def isspace_def)

section \<open>Properties of text substitution\<close>

lemmas eval_str = ascii_def sublist_code(3) prefix_code replace_def strip_def isspace_def
  ascii_lower_def lower_char_def

lemmas eval_text = frame_text_def paragraph_text_def set_text_def replace_in_run_def
  replace_in_shape_def apply_replacements_def escape_def escape_char_def hex_digit_def

text \<open>
  C3, evaluated where the code departs from the claim. The dictionary holds the single
  named-shape key \<open>shape:Title\<close>. The shape named \<open>Title\<close> is replaced in full, and so is
  the shape named \<open>Body\<close> whose whole text reads \<open>shape:Title\<close>: the whole-text match of
  step 2 looks the text up among all keys, named-shape keys included.
\<close>

theorem named_shape_key_replaces_equal_text:
  "map (\<lambda>sh. (shape_name sh, map_option frame_text (text_frame sh)))
     (shapes (apply_replacements
        \<lparr>slide_layout = Some (ascii ''Blank''),
         shapes = [\<lparr>shape_name = ascii ''Title'', text_frame = Some [[Run (ascii ''Old'')]]\<rparr>,
                   \<lparr>shape_name = ascii ''Body'', text_frame = Some [[Run (ascii ''shape:Title'')]]\<rparr>]\<rparr>
        [(ascii ''shape:Title'', ascii ''New'')]))
   = [(ascii ''Title'', Some (ascii ''New'')), (ascii ''Body'', Some (ascii ''New''))]"
  by (simp add: eval_str eval_text)

subsection \<open>\<open>str.replace\<close> replaces every occurrence, from the left\<close>





subsection \<open>Runs\<close>










section \<open>Properties of plan resolution\<close>

lemma analyze_loop_slides:
  "slides (analyze_loop lw sls idx n res)
     = slides res @ map (\<lambda>(j, sl). analyze_slide lw sl j n) (enumerate idx sls)"
  by (induction sls arbitrary: idx res) (simp_all add: Let_def)

lemma analyze_loop_types:
  "slide_types (analyze_loop lw sls idx n res) t =
     (let new = map fst (filter (\<lambda>(j, sl). info_type (analyze_slide lw sl j n) = t) (enumerate idx sls))
      in case slide_types res t of
           None \<Rightarrow> (if new = [] then None else Some new)
         | Some l \<Rightarrow> Some (l @ new))"
  by (induction sls arbitrary: idx res) (auto simp: Let_def split: option.splits)

lemma enumerate_nth: "enumerate 0 xs = map (\<lambda>j. (j, xs ! j)) [0..<length xs]"
  by (rule nth_equalityI) (simp_all add: nth_enumerate_eq)

lemma related_slides_nth:
  "related_slides rs l = Inr sls \<Longrightarrow> length sls = length l \<and> (\<forall>j<length l. rs (l ! j) = Some (sls ! j))"
proof (induction l arbitrary: sls)
  case Nil
  then show ?case by simp
next
  case (Cons r l)
  then obtain sl sls' where r: "rs r = Some sl" and rest: "related_slides rs l = Inr sls'"
    and sls: "sls = sl # sls'"
    by (auto split: option.splits sum.splits)
  from Cons.IH[OF rest] r sls show ?case
    by (auto simp: nth_Cons split: nat.splits)
qed

lemma PPTCloner_Inr:
  assumes "PPTCloner lw fs path = Inr self"
  shows "\<exists>prs sls. open_presentation fs path = Inr prs \<and>
           related_slides (rels prs) (sldIdLst prs) = Inr sls \<and>
           analysis_of self = analyze_loop lw sls 0 (length (sldIdLst prs))
             \<lparr>slide_count = length (sldIdLst prs), slides = [], slide_types = Map.empty\<rparr>"
proof (cases "open_presentation fs path")
  case (Inl e)
  with assms show ?thesis
    by (simp add: PPTCloner_def analyze_template_def split: if_splits)
next
  case (Inr prs)
  show ?thesis
  proof (cases "related_slides (rels prs) (sldIdLst prs)")
    case (Inl e)
    with Inr assms show ?thesis
      by (simp add: PPTCloner_def analyze_template_def split: if_splits)
  next
    case sls: (Inr sls)
    with Inr assms have "self = \<lparr>template_path = path,
        analysis_of = analyze_loop lw sls 0 (length (sldIdLst prs))
             \<lparr>slide_count = length (sldIdLst prs), slides = [], slide_types = Map.empty\<rparr>\<rparr>"
      by (simp add: PPTCloner_def analyze_template_def split: if_splits)
    then have "analysis_of self = analyze_loop lw sls 0 (length (sldIdLst prs))
             \<lparr>slide_count = length (sldIdLst prs), slides = [], slide_types = Map.empty\<rparr>"
      by simp
    with Inr sls show ?thesis by blast
  qed
qed

text \<open>
  The positions recorded for a category are the positions, ascending, of the slide
  summaries of that category.
\<close>

lemma get_slides_by_type_filter:
  assumes "PPTCloner lw fs path = Inr self"
  shows "get_slides_by_type self t
     = filter (\<lambda>j. info_type (slides (analysis_of self) ! j) = t)
         [0..<length (slides (analysis_of self))]"
proof -
  from PPTCloner_Inr[OF assms] obtain prs :: presentation and sls
    where sls: "related_slides (rels prs) (sldIdLst prs) = Inr sls"
    and a: "analysis_of self = analyze_loop lw sls 0 (length (sldIdLst prs))
          \<lparr>slide_count = length (sldIdLst prs), slides = [], slide_types = Map.empty\<rparr>"
    by blast
  let ?n = "length (sldIdLst prs)"
  have sl: "slides (analysis_of self) = map (\<lambda>j. analyze_slide lw (sls ! j) j ?n) [0..<length sls]"
    unfolding a analyze_loop_slides by (simp add: enumerate_nth)
  have ty: "get_slides_by_type self t
      = filter (\<lambda>j. info_type (analyze_slide lw (sls ! j) j ?n) = t) [0..<length sls]"
    unfolding get_slides_by_type_def a analyze_loop_types
    by (simp add: enumerate_nth filter_map comp_def Let_def)
  show ?thesis
    unfolding ty sl by (auto intro: filter_cong)
qed

lemma filter_first:
  assumes "j < n" and "P j" and "\<forall>i<j. \<not> P i"
  shows "filter P [0..<n] = j # filter P [Suc j..<n]"
proof -
  have "[0..<n] = [0..<j] @ [j..<n]"
    using upt_add_eq_append[of 0 j "n - j"] assms(1) by simp
  moreover have "[j..<n] = j # [Suc j..<n]"
    using assms(1) by (rule upt_conv_Cons)
  moreover have "filter P [0..<j] = []"
    using assms(3) by (simp add: filter_empty_conv)
  ultimately show ?thesis using assms(2) by simp
qed

text \<open>
  C6. A plan entry without \<open>template_slide\<close> names a category (\<open>content\<close> when it gives
  none). When no slide summary of the template has that category the entry resolves
  to position 0; when some have, it resolves to the first of them. The resolution
  returns a position in either case: it has no error result. The summaries are those
  of the template's slides, each classified by \<open>_infer_slide_type\<close> in
  \<open>_analyze_slide\<close>.
\<close>

theorem category_resolves_to_first_or_zero:
  assumes "PPTCloner lw fs path = Inr self" and "template_slide item = None"
    and "slide_type = (case item_type item of Some t \<Rightarrow> t | None \<Rightarrow> ascii ''content'')"
  shows "((\<forall>j<length (slides (analysis_of self)).
            info_type (slides (analysis_of self) ! j) \<noteq> slide_type)
          \<longrightarrow> resolve_item self item = 0)
       \<and> (\<forall>j<length (slides (analysis_of self)).
            info_type (slides (analysis_of self) ! j) = slide_type \<and>
            (\<forall>i<j. info_type (slides (analysis_of self) ! i) \<noteq> slide_type)
            \<longrightarrow> resolve_item self item = int j)
       \<and> (\<forall>prs. open_presentation fs path = Inr prs \<longrightarrow>
            length (slides (analysis_of self)) = length (sldIdLst prs) \<and>
            (\<forall>j r sl. slide_at prs j = Inr (r, sl) \<longrightarrow>
               slides (analysis_of self) ! j = analyze_slide lw sl j (length (sldIdLst prs))))"
proof -
  let ?a = "analysis_of self"
  let ?P = "\<lambda>j. info_type (slides ?a ! j) = slide_type"
  have res: "resolve_item self item
      = (case filter ?P [0..<length (slides ?a)] of [] \<Rightarrow> 0 | first # _ \<Rightarrow> int first)"
    unfolding resolve_item_def Let_def assms(2) get_slides_by_type_filter[OF assms(1)]
    using assms(3) by simp
  have none: "(\<forall>j<length (slides ?a). \<not> ?P j) \<longrightarrow> resolve_item self item = 0"
    unfolding res by (auto simp: filter_empty_conv split: list.splits)
  have first: "\<forall>j<length (slides ?a). ?P j \<and> (\<forall>i<j. \<not> ?P i) \<longrightarrow> resolve_item self item = int j"
    unfolding res using filter_first[where P = ?P] by fastforce
  have link: "\<forall>prs. open_presentation fs path = Inr prs \<longrightarrow>
            length (slides ?a) = length (sldIdLst prs) \<and>
            (\<forall>j r sl. slide_at prs j = Inr (r, sl) \<longrightarrow>
               slides ?a ! j = analyze_slide lw sl j (length (sldIdLst prs)))"
  proof (intro allI impI)
    fix prs assume op: "open_presentation fs path = Inr prs"
    with PPTCloner_Inr[OF assms(1)] obtain sls
      where sls: "related_slides (rels prs) (sldIdLst prs) = Inr sls"
      and a: "?a = analyze_loop lw sls 0 (length (sldIdLst prs))
          \<lparr>slide_count = length (sldIdLst prs), slides = [], slide_types = Map.empty\<rparr>"
      by auto
    note nth = related_slides_nth[OF sls]
    have sl: "slides ?a = map (\<lambda>j. analyze_slide lw (sls ! j) j (length (sldIdLst prs))) [0..<length sls]"
      unfolding a analyze_loop_slides by (simp add: enumerate_nth)
    show "length (slides ?a) = length (sldIdLst prs) \<and>
            (\<forall>j r sl. slide_at prs j = Inr (r, sl) \<longrightarrow>
               slides ?a ! j = analyze_slide lw sl j (length (sldIdLst prs)))"
      using nth unfolding sl slide_at_def
      by (auto split: if_splits option.splits)
  qed
  from none first link show ?thesis by blast
qed

lemmas eval_example = example_fs_def example_template_def example_slide_def

lemmas eval_analysis = PPTCloner_def analyze_template_def open_presentation_def analyze_slide_def
  infer_slide_type_def cover_keywords_def section_keywords_def toc_keywords_def
  ending_keywords_def numbered_tokens_def match_digits_def is_digit_def

lemma example_cloner:
  "PPTCloner ascii_lower example_fs (ascii ''t.pptx'') =
     Inr \<lparr>template_path = ascii ''t.pptx'',
          analysis_of = analyze_loop ascii_lower
            [example_slide (ascii ''A''), example_slide (ascii ''B''), example_slide (ascii ''C'')] 0
            (length [7, 8, 9 :: rid])
            \<lparr>slide_count = length [7, 8, 9 :: rid], slides = [], slide_types = Map.empty\<rparr>\<rparr>"
  by (simp add: PPTCloner_def analyze_template_def open_presentation_def example_fs_def
      example_template_def ascii_def read_file_def example_resolve_def prefix_code)

lemma example_types:
  "map info_type (slides (analyze_loop ascii_lower
            [example_slide (ascii ''A''), example_slide (ascii ''B''), example_slide (ascii ''C'')] 0
            (length [7, 8, 9 :: rid])
            \<lparr>slide_count = length [7, 8, 9 :: rid], slides = [], slide_types = Map.empty\<rparr>))
   = [ascii ''cover'', ascii ''content'', ascii ''content'']"
  by (simp add: analyze_loop_slides enumerate_simps analyze_slide_def infer_slide_type_def
      cover_keywords_def section_keywords_def toc_keywords_def ending_keywords_def
      numbered_tokens_def match_digits_def is_digit_def example_slide_def eval_str eval_text Let_def)

text \<open>
  C6, witness: on the example template no slide is \<open>toc\<close>, so that category resolves
  to position 0; the first \<open>content\<close> slide is at position 1.
\<close>

theorem category_resolves_to_first_or_zero_witness:
  "\<exists>self. PPTCloner ascii_lower example_fs (ascii ''t.pptx'') = Inr self
     \<and> resolve_item self \<lparr>template_slide = None, item_type = Some (ascii ''toc''),
          item_replacements = None\<rparr> = 0
     \<and> resolve_item self \<lparr>template_slide = None, item_type = None,
          item_replacements = None\<rparr> = 1
     \<and> length (slides (analysis_of self)) = 3"
proof -
  define a where "a = analyze_loop ascii_lower
            [example_slide (ascii ''A''), example_slide (ascii ''B''), example_slide (ascii ''C'')] 0
            (length [7, 8, 9 :: rid])
            \<lparr>slide_count = length [7, 8, 9 :: rid], slides = [], slide_types = Map.empty\<rparr>"
  define self where "self = \<lparr>template_path = ascii ''t.pptx'', analysis_of = a\<rparr>"
  have cl: "PPTCloner ascii_lower example_fs (ascii ''t.pptx'') = Inr self"
    unfolding self_def a_def by (rule example_cloner)
  have an: "analysis_of self = a" by (simp add: self_def)
  have tys: "map info_type (slides a) = [ascii ''cover'', ascii ''content'', ascii ''content'']"
    unfolding a_def by (rule example_types)
  then have len: "length (slides a) = 3"
    by (metis length_map length_Cons list.size(3) numeral_3_eq_3)
  have nth: "info_type (slides a ! j) = [ascii ''cover'', ascii ''content'', ascii ''content''] ! j"
    if "j < 3" for j
    using that len tys by (metis nth_map)
  have distinct: "ascii ''cover'' \<noteq> ascii ''toc''" "ascii ''content'' \<noteq> ascii ''toc''"
    "ascii ''cover'' \<noteq> ascii ''content''"
    by (simp_all add: ascii_def)
  have no_toc: "\<forall>j<length (slides (analysis_of self)). info_type (slides (analysis_of self) ! j) \<noteq> ascii ''toc''"
    unfolding an len using nth distinct by (auto simp: less_Suc_eq numeral_3_eq_3)
  have first_content: "1 < length (slides (analysis_of self)) \<and>
      info_type (slides (analysis_of self) ! 1) = ascii ''content'' \<and>
      (\<forall>i<1. info_type (slides (analysis_of self) ! i) \<noteq> ascii ''content'')"
    unfolding an len using nth[of 0] nth[of 1] distinct by simp
  note t1 = category_resolves_to_first_or_zero[OF cl, where slide_type = "ascii ''toc''"
      and item = "\<lparr>template_slide = None, item_type = Some (ascii ''toc''), item_replacements = None\<rparr>"]
  note t2 = category_resolves_to_first_or_zero[OF cl, where slide_type = "ascii ''content''"
      and item = "\<lparr>template_slide = None, item_type = None, item_replacements = None\<rparr>"]
  have r1: "resolve_item self \<lparr>template_slide = None, item_type = Some (ascii ''toc''),
          item_replacements = None\<rparr> = 0"
    using t1 no_toc by simp
  have r2: "resolve_item self \<lparr>template_slide = None, item_type = None,
          item_replacements = None\<rparr> = 1"
    using t2 first_content by force
  have r3: "length (slides (analysis_of self)) = 3"
    unfolding an by (rule len)
  from cl r1 r2 r3 show ?thesis by blast
qed

section \<open>Properties of the runs\<close>

lemma create_simple_cases:
  "(\<exists>e. create_simple fs self slide_indices replacements_list output_path = (fs, Inl e)) \<or>
   (\<exists>prs prs1 prs2 fs'.
      open_presentation fs (template_path self) = Inr prs \<and>
      delete_loop (deletion_order (length (sldIdLst prs)) slide_indices) prs = Inr prs1 \<and>
      replace_loop (map_sorted (sort slide_indices) 0 Map.empty) replacements_list
        (enumerate 0 slide_indices) prs1 = Inr prs2 \<and>
      save prs2 output_path fs = Inr fs' \<and>
      create_simple fs self slide_indices replacements_list output_path = (fs', Inr output_path))"
  unfolding create_simple_def Let_def by (simp split: sum.splits)

lemma create_from_plan_cases:
  "(\<exists>e. create_from_plan fs self content_plan output_path = (fs, Inl e)) \<or>
   (\<exists>prs prs1 prs2 fs'.
      open_presentation fs (template_path self) = Inr prs \<and>
      delete_loop (rev (sort (to_delete (length (sldIdLst prs)) (map (resolve_item self) content_plan)))) prs
        = Inr prs1 \<and>
      replace_loop_plan
        (map_survivors [0..<length (sldIdLst prs)]
           (to_delete (length (sldIdLst prs)) (map (resolve_item self) content_plan)) 0 Map.empty)
        (map (\<lambda>item. (resolve_item self item, replacements_of item)) content_plan) prs1 = Inr prs2 \<and>
      save prs2 output_path fs = Inr fs' \<and>
      create_from_plan fs self content_plan output_path = (fs', Inr output_path))"
  unfolding create_from_plan_def Let_def by (simp split: sum.splits add: comp_def)


section \<open>Properties of slide deletion\<close>

lemma nths_UNIV: "nths xs UNIV = xs"
  by (simp add: nths_all)

lemma nths_cong:
  assumes "\<forall>i<length xs. (i \<in> A) = (i \<in> B)"
  shows "nths xs A = nths xs B"
proof -
  have "\<forall>p \<in> set (zip xs [0..<length xs]). (snd p \<in> A) = (snd p \<in> B)"
    using assms by (auto simp: set_zip)
  then show ?thesis
    unfolding nths_def by (simp cong: filter_cong)
qed

lemma nths_delete_top:
  assumes "d < length l" and "\<forall>x \<in> set ds. x < d"
  shows "nths (take d l @ drop (Suc d) l) (- set ds) = nths l (- set (d # ds))"
proof -
  have len: "length (take d l) = d" using assms(1) by simp
  have "j + d \<notin> set ds" "Suc j + d \<notin> set (d # ds)" for j
    using assms(2) by (auto dest: bspec)
  then have above: "{j. j + d \<in> - set ds} = UNIV" "{j. Suc j + d \<in> - set (d # ds)} = UNIV"
    by simp_all
  have top: "0 \<notin> {j. j + d \<in> - set (d # ds)}" by simp
  have low: "nths (take d l) (- set (d # ds)) = nths (take d l) (- set ds)"
    by (rule nths_cong) (simp add: len)
  have "nths l (- set (d # ds)) = nths (take d l @ (l ! d) # drop (Suc d) l) (- set (d # ds))"
    using assms(1) by (simp add: id_take_nth_drop[symmetric])
  also have "\<dots> = nths (take d l) (- set ds) @ drop (Suc d) l"
    unfolding nths_append len low nths_Cons using top above(2) by (simp add: nths_UNIV)
  also have "\<dots> = nths (take d l @ drop (Suc d) l) (- set ds)"
    unfolding nths_append len above(1) by (simp add: nths_UNIV)
  finally show ?thesis by simp
qed

lemma count_list_delete:
  assumes "d < length l"
  shows "count_list (take d l @ drop (Suc d) l) y \<le> count_list l y"
proof -
  have "count_list l y = count_list (take d l @ (l ! d) # drop (Suc d) l) y"
    using assms by (simp add: id_take_nth_drop[symmetric])
  then show ?thesis by simp
qed

lemma count_list_twice:
  assumes "d < length l" and "l ! d \<in> set (take d l @ drop (Suc d) l)"
  shows "2 \<le> count_list l (l ! d)"
proof -
  have "count_list l (l ! d) = count_list (take d l @ (l ! d) # drop (Suc d) l) (l ! d)"
    using assms(1) by (simp add: id_take_nth_drop[symmetric])
  moreover have "0 < count_list (take d l @ drop (Suc d) l) (l ! d)"
    using assms(2) by (metis count_list_0_iff gr0I)
  ultimately show ?thesis by (simp add: numeral_2_eq_2) arith
qed

lemma delete_slide_Inr:
  assumes "d < length (sldIdLst prs)"
  shows "delete_slide d prs = Inr (del_sldId d (drop_rel (sldIdLst prs ! d) prs))"
    and "sldIdLst (del_sldId d (drop_rel (sldIdLst prs ! d) prs))
           = take d (sldIdLst prs) @ drop (Suc d) (sldIdLst prs)"
    and "rels (del_sldId d (drop_rel (sldIdLst prs ! d) prs))
           = (if count_list (sldIdLst prs) (sldIdLst prs ! d) < 2
              then (rels prs)(sldIdLst prs ! d := None) else rels prs)"
  using assms by (simp_all add: delete_slide_def del_sldId_def drop_rel_def)

text \<open>
  The deletion loop over a strictly descending list of valid positions: it raises
  nothing; the entries left are those at the other positions, in their order; no
  relationship but those of deleted entries is touched, and the relationship of a
  deleted entry that no other entry referred to is gone; every entry left still has
  its relationship.
\<close>

lemma delete_loop_descending:
  assumes "sorted_wrt (>) ds" and "\<forall>d \<in> set ds. d < length (sldIdLst prs)"
  shows "\<exists>prs'. delete_loop ds prs = Inr prs'
     \<and> sldIdLst prs' = nths (sldIdLst prs) (- set ds)
     \<and> (\<forall>r. rels prs' r = None \<or> rels prs' r = rels prs r)
     \<and> (\<forall>r. r \<notin> (!) (sldIdLst prs) ` set ds \<longrightarrow> rels prs' r = rels prs r)
     \<and> (\<forall>d \<in> set ds. count_list (sldIdLst prs) (sldIdLst prs ! d) < 2
           \<longrightarrow> rels prs' (sldIdLst prs ! d) = None)
     \<and> (set (sldIdLst prs) \<subseteq> dom (rels prs) \<longrightarrow> set (sldIdLst prs') \<subseteq> dom (rels prs'))"
  using assms
proof (induction ds arbitrary: prs)
  case Nil
  then show ?case by (simp add: nths_UNIV)
next
  case (Cons d ds)
  let ?l = "sldIdLst prs"
  let ?p1 = "del_sldId d (drop_rel (?l ! d) prs)"
  let ?l1 = "take d ?l @ drop (Suc d) ?l"
  from Cons.prems have d: "d < length ?l" and below: "\<forall>x \<in> set ds. x < d"
    and sorted: "sorted_wrt (>) ds"
    by auto
  note step = delete_slide_Inr[OF d]
  have l1: "sldIdLst ?p1 = ?l1" by (rule step(2))
  have r1: "rels ?p1 = (if count_list ?l (?l ! d) < 2 then (rels prs)(?l ! d := None) else rels prs)"
    by (rule step(3))
  have same: "?l1 ! x = ?l ! x" if "x \<in> set ds" for x
    using below that d by (simp add: nth_append)
  have bound: "\<forall>x \<in> set ds. x < length (sldIdLst ?p1)"
    unfolding l1 using below d by (auto dest!: bspec)
  from Cons.IH[OF sorted bound] obtain prs' where
    loop: "delete_loop ds ?p1 = Inr prs'"
    and ids: "sldIdLst prs' = nths ?l1 (- set ds)"
    and only: "\<forall>r. rels prs' r = None \<or> rels prs' r = rels ?p1 r"
    and frame: "\<forall>r. r \<notin> (!) ?l1 ` set ds \<longrightarrow> rels prs' r = rels ?p1 r"
    and gone: "\<forall>x \<in> set ds. count_list ?l1 (?l1 ! x) < 2 \<longrightarrow> rels prs' (?l1 ! x) = None"
    and wf: "set ?l1 \<subseteq> dom (rels ?p1) \<longrightarrow> set (sldIdLst prs') \<subseteq> dom (rels prs')"
    unfolding l1 by blast
  have img: "(!) ?l1 ` set ds = (!) ?l ` set ds"
    using same by (auto simp: image_iff)
  have A: "delete_loop (d # ds) prs = Inr prs'"
    using step(1) loop by simp
  have B: "sldIdLst prs' = nths ?l (- set (d # ds))"
    unfolding ids by (rule nths_delete_top[OF d below])
  have C: "\<forall>r. rels prs' r = None \<or> rels prs' r = rels prs r"
  proof
    fix r
    from only have "rels prs' r = None \<or> rels prs' r = rels ?p1 r" by (rule spec)
    then show "rels prs' r = None \<or> rels prs' r = rels prs r"
      unfolding r1 by (auto split: if_splits)
  qed
  have D: "\<forall>r. r \<notin> (!) ?l ` set (d # ds) \<longrightarrow> rels prs' r = rels prs r"
  proof (intro allI impI)
    fix r assume r: "r \<notin> (!) ?l ` set (d # ds)"
    then have "r \<noteq> ?l ! d" and "r \<notin> (!) ?l1 ` set ds" unfolding img by auto
    with frame have "rels prs' r = rels ?p1 r" and "rels ?p1 r = rels prs r"
      unfolding r1 by auto
    then show "rels prs' r = rels prs r" by simp
  qed
  have E: "\<forall>x \<in> set (d # ds). count_list ?l (?l ! x) < 2 \<longrightarrow> rels prs' (?l ! x) = None"
  proof (intro ballI impI)
    fix x assume x: "x \<in> set (d # ds)" and c: "count_list ?l (?l ! x) < 2"
    show "rels prs' (?l ! x) = None"
    proof (cases "x = d")
      case True
      with c have "rels ?p1 (?l ! x) = None" unfolding r1 by simp
      moreover from only have "rels prs' (?l ! x) = None \<or> rels prs' (?l ! x) = rels ?p1 (?l ! x)"
        by (rule spec)
      ultimately show ?thesis by auto
    next
      case False
      with x have xs: "x \<in> set ds" by simp
      have "count_list ?l1 (?l1 ! x) \<le> count_list ?l (?l ! x)"
        unfolding same[OF xs] by (rule count_list_delete[OF d])
      with c have "count_list ?l1 (?l1 ! x) < 2" by simp
      with gone xs have "rels prs' (?l1 ! x) = None" by blast
      then show ?thesis unfolding same[OF xs] .
    qed
  qed
  have F: "set ?l \<subseteq> dom (rels prs) \<longrightarrow> set (sldIdLst prs') \<subseteq> dom (rels prs')"
  proof
    assume sub: "set ?l \<subseteq> dom (rels prs)"
    have "set ?l1 \<subseteq> dom (rels ?p1)"
    proof
      fix y assume y: "y \<in> set ?l1"
      then have "y \<in> set ?l" by (auto dest: in_set_takeD in_set_dropD)
      with sub have dom: "y \<in> dom (rels prs)" by blast
      show "y \<in> dom (rels ?p1)"
      proof (cases "y = ?l ! d")
        case True
        with y count_list_twice[OF d] have "\<not> count_list ?l (?l ! d) < 2" by simp
        with dom show ?thesis unfolding r1 by simp
      next
        case False
        with dom show ?thesis unfolding r1 by auto
      qed
    qed
    with wf show "set (sldIdLst prs') \<subseteq> dom (rels prs')" by blast
  qed
  show ?case
    by (intro exI[of _ prs'] conjI A B C D E F)
qed

lemma deletion_order_rev: "deletion_order n xs = rev (to_delete n xs)"
proof -
  have "sorted (to_delete n xs)"
    unfolding to_delete_def by (rule sorted_filter[where f = "\<lambda>x. x", simplified]) simp
  then show ?thesis
    unfolding deletion_order_def by (simp add: sorted_sort_id)
qed

lemma deletion_order_descending: "sorted_wrt (>) (deletion_order n xs)"
proof -
  have "sorted_wrt (<) (to_delete n xs)"
    unfolding to_delete_def by (rule sorted_wrt_filter) simp
  then show ?thesis
    unfolding deletion_order_rev sorted_wrt_rev by simp
qed

lemma set_deletion_order: "set (deletion_order n xs) = {i. i < n \<and> int i \<notin> set xs}"
  unfolding deletion_order_rev to_delete_def by auto

text \<open>The entries that survive the deletion loop of a run.\<close>

lemma kept_entries:
  "nths l (- set (deletion_order (length l) xs)) = nths l {i. int i \<in> set xs}"
  by (rule nths_cong) (simp add: set_deletion_order)

lemma map_sorted_notin: "k \<notin> set ys \<Longrightarrow> map_sorted ys c m k = m k"
  by (induction ys arbitrary: c m) simp_all

lemma map_sorted_last: "ys \<noteq> [] \<Longrightarrow> map_sorted ys c m (last ys) = Some (c + length ys - 1)"
proof (induction ys arbitrary: c m)
  case Nil
  then show ?case by simp
next
  case (Cons y ys)
  show ?case
  proof (cases "ys = []")
    case True
    then show ?thesis by simp
  next
    case False
    have "map_sorted ys (c + 1) (m(y \<mapsto> c)) (last ys) = Some (c + 1 + length ys - 1)"
      by (rule Cons.IH[OF False])
    then show ?thesis using False by (simp del: fun_upd_apply)
  qed
qed

lemma map_sorted_bound:
  "k \<in> set ys \<Longrightarrow> \<exists>new. map_sorted ys c m k = Some new \<and> new < c + length ys"
proof (induction ys arbitrary: c m)
  case Nil
  then show ?case by simp
next
  case (Cons y ys)
  show ?case
  proof (cases "k \<in> set ys")
    case True
    have "\<exists>new. map_sorted ys (c + 1) (m(y \<mapsto> c)) k = Some new \<and> new < c + 1 + length ys"
      by (rule Cons.IH[OF True])
    then show ?thesis by (simp del: fun_upd_apply)
  next
    case False
    with Cons.prems have "k = y" by simp
    with False show ?thesis by (simp add: map_sorted_notin)
  qed
qed

lemma slide_at_cases:
  "slide_at p i = Inl IndexError \<and> length (sldIdLst p) \<le> i
   \<or> slide_at p i = Inl KeyError \<and> i < length (sldIdLst p) \<and> sldIdLst p ! i \<notin> dom (rels p)
   \<or> (\<exists>sl. slide_at p i = Inr (sldIdLst p ! i, sl) \<and> i < length (sldIdLst p)
         \<and> rels p (sldIdLst p ! i) = Some sl)"
  unfolding slide_at_def by (auto split: option.splits)

text \<open>A replacement loop that returns has found every slide it asked for.\<close>

lemma replace_loop_returns:
  assumes "replace_loop m rl es p = Inr p'"
  shows "sldIdLst p' = sldIdLst p \<and>
         (\<forall>i old new. (i, old) \<in> set es \<and> i < length rl \<and> m old = Some new
            \<longrightarrow> new < length (sldIdLst p))"
  using assms
proof (induction es arbitrary: p)
  case Nil
  then show ?case by simp
next
  case (Cons e es)
  obtain i old where e: "e = (i, old)" by (cases e)
  show ?case
  proof (cases "m old")
    case None
    with Cons.prems e have "replace_loop m rl es p = Inr p'" by simp
    from Cons.IH[OF this] None e show ?thesis by auto
  next
    case (Some new)
    show ?thesis
    proof (cases "i < length rl")
      case False
      with Cons.prems e Some have "replace_loop m rl es p = Inr p'" by simp
      from Cons.IH[OF this] False e show ?thesis by auto
    next
      case True
      from slide_at_cases[of p new] Cons.prems e Some True
      obtain sl where at: "slide_at p new = Inr (sldIdLst p ! new, sl)" and lt: "new < length (sldIdLst p)"
        by (auto split: sum.splits)
      let ?q = "p\<lparr>rels := (rels p)(sldIdLst p ! new \<mapsto> apply_replacements sl (rl ! i))\<rparr>"
      from Cons.prems e Some True at have "replace_loop m rl es ?q = Inr p'" by simp
      from Cons.IH[OF this] have "sldIdLst p' = sldIdLst p"
        and "\<forall>i old new. (i, old) \<in> set es \<and> i < length rl \<and> m old = Some new
            \<longrightarrow> new < length (sldIdLst p)"
        by simp_all
      with e Some lt show ?thesis by auto
    qed
  qed
qed

text \<open>With every entry's relationship in place the loop can only raise \<open>IndexError\<close>.\<close>

lemma replace_loop_raises:
  assumes "replace_loop m rl es p = Inl err" and "set (sldIdLst p) \<subseteq> dom (rels p)"
  shows "err = IndexError"
  using assms
proof (induction es arbitrary: p)
  case Nil
  then show ?case by simp
next
  case (Cons e es)
  obtain i old where e: "e = (i, old)" by (cases e)
  show ?case
  proof (cases "m old")
    case None
    with Cons.prems e have "replace_loop m rl es p = Inl err" by simp
    from Cons.IH[OF this Cons.prems(2)] show ?thesis .
  next
    case (Some new)
    show ?thesis
    proof (cases "i < length rl")
      case False
      with Cons.prems e Some have "replace_loop m rl es p = Inl err" by simp
      from Cons.IH[OF this Cons.prems(2)] show ?thesis .
    next
      case True
      from slide_at_cases[of p new] show ?thesis
      proof (elim disjE conjE exE)
        assume "slide_at p new = Inl IndexError"
        with Cons.prems(1) e Some True show ?thesis by simp
      next
        assume "new < length (sldIdLst p)" "sldIdLst p ! new \<notin> dom (rels p)"
        with Cons.prems(2) show ?thesis by (meson nth_mem subsetD)
      next
        fix sl assume at: "slide_at p new = Inr (sldIdLst p ! new, sl)"
        let ?q = "p\<lparr>rels := (rels p)(sldIdLst p ! new \<mapsto> apply_replacements sl (rl ! i))\<rparr>"
        from Cons.prems(1) e Some True at have loop: "replace_loop m rl es ?q = Inl err" by simp
        have "set (sldIdLst ?q) \<subseteq> dom (rels ?q)" using Cons.prems(2) by auto
        from Cons.IH[OF loop this] show ?thesis .
      qed
    qed
  qed
qed

text \<open>The loop returns when every mapped position is in range and every entry has its relationship.\<close>

lemma replace_loop_succeeds:
  assumes "\<forall>i old new. (i, old) \<in> set es \<and> m old = Some new \<longrightarrow> new < length (sldIdLst p)"
    and "set (sldIdLst p) \<subseteq> dom (rels p)"
  shows "\<exists>p'. replace_loop m rl es p = Inr p'"
proof (cases "replace_loop m rl es p")
  case (Inr p')
  then show ?thesis by simp
next
  case (Inl err)
  have False using Inl assms
  proof (induction es arbitrary: p)
    case Nil
    then show ?case by simp
  next
    case (Cons e es)
    obtain i old where e: "e = (i, old)" by (cases e)
    have rest: "\<forall>i old new. (i, old) \<in> set es \<and> m old = Some new \<longrightarrow> new < length (sldIdLst p)"
      using Cons.prems(2) by auto
    show ?case
    proof (cases "m old")
      case None
      with Cons.prems(1) e have "replace_loop m rl es p = Inl err" by simp
      from Cons.IH[OF this rest Cons.prems(3)] show ?thesis .
    next
      case (Some new)
      then have lt: "new < length (sldIdLst p)" using Cons.prems(2) e by auto
      show ?thesis
      proof (cases "i < length rl")
        case False
        with Cons.prems(1) e Some have "replace_loop m rl es p = Inl err" by simp
        from Cons.IH[OF this rest Cons.prems(3)] show ?thesis .
      next
        case True
        from lt Cons.prems(3) obtain sl where sl: "rels p (sldIdLst p ! new) = Some sl"
          by (meson domD nth_mem subsetD)
        with lt have at: "slide_at p new = Inr (sldIdLst p ! new, sl)"
          by (simp add: slide_at_def)
        let ?q = "p\<lparr>rels := (rels p)(sldIdLst p ! new \<mapsto> apply_replacements sl (rl ! i))\<rparr>"
        from Cons.prems(1) e Some True at have loop: "replace_loop m rl es ?q = Inl err" by simp
        have wf: "set (sldIdLst ?q) \<subseteq> dom (rels ?q)" using Cons.prems(3) by auto
        have rest': "\<forall>i old new. (i, old) \<in> set es \<and> m old = Some new \<longrightarrow> new < length (sldIdLst ?q)"
          using rest by simp
        from Cons.IH[OF loop rest' wf] show ?thesis .
      qed
    qed
  qed
  then show ?thesis ..
qed

lemma kept_count:
  "length (nths l {i. int i \<in> set xs}) = card {i. i < length l \<and> int i \<in> set xs}"
  by (simp add: length_nths)

lemma kept_count_in_range:
  assumes "\<forall>k \<in> set xs. 0 \<le> k \<and> k < int n"
  shows "card {i. i < n \<and> int i \<in> set xs} = card (set xs)"
proof -
  have "int ` {i. i < n \<and> int i \<in> set xs} = set xs"
  proof
    show "int ` {i. i < n \<and> int i \<in> set xs} \<subseteq> set xs" by auto
    show "set xs \<subseteq> int ` {i. i < n \<and> int i \<in> set xs}"
    proof
      fix k assume k: "k \<in> set xs"
      with assms have "0 \<le> k" "k < int n" by auto
      then have "nat k < n" "int (nat k) = k" by auto
      with k show "k \<in> int ` {i. i < n \<and> int i \<in> set xs}"
        by (metis (mono_tags, lifting) image_eqI mem_Collect_eq)
    qed
  qed
  then have "card (set xs) = card (int ` {i. i < n \<and> int i \<in> set xs})" by simp
  also have "\<dots> = card {i. i < n \<and> int i \<in> set xs}"
    by (rule card_image) (simp add: inj_on_def)
  finally show ?thesis by simp
qed

lemma kept_count_out_of_range:
  assumes "k \<in> set xs" and "k < 0 \<or> int n \<le> k"
  shows "card {i. i < n \<and> int i \<in> set xs} < length xs"
proof -
  have sub: "int ` {i. i < n \<and> int i \<in> set xs} \<subseteq> set xs - {k}"
    using assms(2) by auto
  have "card {i. i < n \<and> int i \<in> set xs} = card (int ` {i. i < n \<and> int i \<in> set xs})"
    by (rule card_image[symmetric]) (simp add: inj_on_def)
  also have "\<dots> \<le> card (set xs - {k})"
    using sub by (simp add: card_mono)
  also have "\<dots> < card (set xs)"
    by (rule card_Diff1_less) (simp_all add: assms(1))
  also have "\<dots> \<le> length xs" by (rule card_length)
  finally show ?thesis .
qed

lemma run_deletion:
  "\<exists>prs1. delete_loop (deletion_order (length (sldIdLst prs)) xs) prs = Inr prs1
     \<and> sldIdLst prs1 = nths (sldIdLst prs) {i. int i \<in> set xs}
     \<and> (\<forall>d \<in> set (deletion_order (length (sldIdLst prs)) xs).
           count_list (sldIdLst prs) (sldIdLst prs ! d) < 2 \<longrightarrow> rels prs1 (sldIdLst prs ! d) = None)
     \<and> (set (sldIdLst prs) \<subseteq> dom (rels prs) \<longrightarrow> set (sldIdLst prs1) \<subseteq> dom (rels prs1))"
proof -
  let ?ds = "deletion_order (length (sldIdLst prs)) xs"
  have "\<forall>d \<in> set ?ds. d < length (sldIdLst prs)"
    by (simp add: set_deletion_order)
  from delete_loop_descending[OF deletion_order_descending this]
  show ?thesis unfolding kept_entries by blast
qed

lemma related_slides_dom: "related_slides rs l = Inr sls \<Longrightarrow> set l \<subseteq> dom rs"
  using related_slides_nth[of rs l sls] by (auto simp: in_set_conv_nth)

lemma PPTCloner_template:
  assumes "PPTCloner lw fs path = Inr self" and "open_presentation fs path = Inr prs"
  shows "template_path self = path" and "set (sldIdLst prs) \<subseteq> dom (rels prs)"
proof -
  from assms(1) show "template_path self = path"
    by (auto simp: PPTCloner_def split: if_splits sum.splits)
  from PPTCloner_Inr[OF assms(1)] assms(2) obtain sls
    where "related_slides (rels prs) (sldIdLst prs) = Inr sls" by auto
  then show "set (sldIdLst prs) \<subseteq> dom (rels prs)" by (rule related_slides_dom)
qed

text \<open>
  A run of \<open>create_simple\<close> over indices that hold a position outside the template,
  with a replacement dictionary for every index: the entry of the greatest index asks
  for a slide beyond the survivors, so the run ends with \<open>IndexError\<close>.
\<close>

lemma create_simple_out_of_range:
  assumes opened: "open_presentation fs (template_path self) = Inr prs"
    and wf: "set (sldIdLst prs) \<subseteq> dom (rels prs)"
    and k: "k \<in> set xs" "k < 0 \<or> int (length (sldIdLst prs)) \<le> k"
    and len: "length xs \<le> length rl"
  shows "create_simple fs self xs rl out = (fs, Inl IndexError)"
proof -
  let ?n = "length (sldIdLst prs)"
  let ?m = "map_sorted (sort xs) 0 Map.empty"
  from run_deletion[of prs xs] wf obtain prs1
    where del: "delete_loop (deletion_order ?n xs) prs = Inr prs1"
      and ids: "sldIdLst prs1 = nths (sldIdLst prs) {i. int i \<in> set xs}"
      and wf1: "set (sldIdLst prs1) \<subseteq> dom (rels prs1)"
    by blast
  have few: "length (sldIdLst prs1) < length xs"
    unfolding ids kept_count by (rule kept_count_out_of_range[OF k])
  from k(1) have ne: "sort xs \<noteq> []" by (metis empty_iff list.set(1) set_sort)
  let ?top = "last (sort xs)"
  have top: "?m ?top = Some (length xs - 1)"
    using map_sorted_last[OF ne, of 0 Map.empty] by simp
  have "?top \<in> set xs" using last_in_set[OF ne] by simp
  then obtain i where i: "i < length xs" "xs ! i = ?top"
    by (auto simp: in_set_conv_nth)
  then have entry: "(i, ?top) \<in> set (enumerate 0 xs)"
    by (simp add: in_set_enumerate_eq)
  have raises: "replace_loop ?m rl (enumerate 0 xs) prs1 = Inl IndexError"
  proof (cases "replace_loop ?m rl (enumerate 0 xs) prs1")
    case (Inl err)
    with replace_loop_raises[OF Inl wf1] show ?thesis by simp
  next
    case (Inr p2)
    from replace_loop_returns[OF Inr] entry i(1) len top
    have "length xs - 1 < length (sldIdLst prs1)" by (metis less_le_trans)
    with few show ?thesis by simp
  qed
  show ?thesis
    unfolding create_simple_def Let_def by (simp add: opened del raises)
qed

text \<open>
  C7. A plan with an entry whose \<open>template_slide\<close> lies outside the template: nothing
  checks the position before the deletion loop, which runs to its end; the run then
  ends with \<open>IndexError\<close>, raised where a slide is fetched for replacement, and writes
  no output. Started from the command line, the run ends with that uncaught exception.
\<close>

theorem out_of_range_position_raises:
  assumes "PPTCloner lw fs path = Inr self"
    and "open_presentation fs path = Inr prs"
    and "item \<in> set content_plan" and "template_slide item = Some k"
    and "k < 0 \<or> int (length (sldIdLst prs)) \<le> k"
  shows "(\<exists>prs1. delete_loop (deletion_order (length (sldIdLst prs)) (map (resolve_item self) content_plan))
                  prs = Inr prs1)
       \<and> create_simple fs self (map (resolve_item self) content_plan)
            (map replacements_of content_plan) out = (fs, Inl IndexError)
       \<and> (5 \<le> length argv \<and> argv ! 1 = ascii ''create'' \<and> argv ! 2 = path \<and>
            load_plan fs (argv ! 3) = Inr content_plan
          \<longrightarrow> main lw argv fs = (fs, Uncaught IndexError))"
proof -
  let ?xs = "map (resolve_item self) content_plan"
  let ?rl = "map replacements_of content_plan"
  note tp = PPTCloner_template[OF assms(1,2)]
  have opened: "open_presentation fs (template_path self) = Inr prs"
    unfolding tp(1) by (rule assms(2))
  have "resolve_item self item = k"
    using assms(4) by (simp add: resolve_item_def)
  with assms(3) have k: "k \<in> set ?xs" by force
  have raise: "create_simple fs self ?xs ?rl out' = (fs, Inl IndexError)" for out'
    by (rule create_simple_out_of_range[OF opened tp(2) k assms(5)]) simp
  have del: "\<exists>prs1. delete_loop (deletion_order (length (sldIdLst prs)) ?xs) prs = Inr prs1"
    using run_deletion[of prs ?xs] by blast
  have cmd: "ascii ''create'' \<noteq> ascii ''analyze''" by (simp add: ascii_def)
  have run: "main lw argv fs = (fs, Uncaught IndexError)"
    if "5 \<le> length argv" "argv ! 1 = ascii ''create''" "argv ! 2 = path"
      "load_plan fs (argv ! 3) = Inr content_plan"
    using that assms(1) cmd raise[of "argv ! 4"] by (simp add: main_def)
  from del raise[of out] run show ?thesis by blast
qed

text \<open>
  C2. Let the requested positions all lie in the template. The deletion loop visits
  exactly the positions that were not requested, in strictly descending order; each
  step drops the relationship of the entry at the position and then deletes the
  entry; the loop raises nothing, leaves the entries at the requested positions in
  their original order, and the relationship of every deleted slide is gone. A
  document that \<open>create_simple\<close> saves holds these entries: as many slides as there are
  distinct requested positions, in the template's order, whatever the order of the
  request. When no position is requested twice and every entry of the template has
  its relationship, nothing before \<open>prs.save\<close> raises: the run does save a document
  where the output path can be written, and ends with the \<open>OSError\<close> of \<open>prs.save\<close>
  otherwise.
\<close>

theorem pruning_keeps_requested_slides_in_order:
  assumes "open_presentation fs (template_path self) = Inr prs"
    and "\<forall>k \<in> set slide_indices. 0 \<le> k \<and> k < int (length (sldIdLst prs))"
  shows "sorted_wrt (>) (deletion_order (length (sldIdLst prs)) slide_indices)
       \<and> set (deletion_order (length (sldIdLst prs)) slide_indices)
           = {i. i < length (sldIdLst prs) \<and> int i \<notin> set slide_indices}
       \<and> (\<forall>idx < length (sldIdLst prs).
             delete_slide idx prs = Inr (del_sldId idx (drop_rel (sldIdLst prs ! idx) prs)))
       \<and> (\<exists>prs1. delete_loop (deletion_order (length (sldIdLst prs)) slide_indices) prs = Inr prs1
             \<and> sldIdLst prs1 = nths (sldIdLst prs) {i. int i \<in> set slide_indices}
             \<and> (\<forall>d \<in> set (deletion_order (length (sldIdLst prs)) slide_indices).
                   count_list (sldIdLst prs) (sldIdLst prs ! d) < 2
                   \<longrightarrow> rels prs1 (sldIdLst prs ! d) = None))
       \<and> (\<forall>p. snd (create_simple fs self slide_indices replacements_list output_path) = Inr p \<longrightarrow>
             (\<exists>doc. read_file (fst (create_simple fs self slide_indices replacements_list output_path))
                      output_path = Some (Pptx doc)
                \<and> sldIdLst doc = nths (sldIdLst prs) {i. int i \<in> set slide_indices}
                \<and> length (sldIdLst doc) = card (set slide_indices)))
       \<and> (distinct slide_indices \<and> set (sldIdLst prs) \<subseteq> dom (rels prs) \<longrightarrow>
             snd (create_simple fs self slide_indices replacements_list output_path)
               = (if writable fs (resolve fs output_path) then Inr output_path else Inl OSError))"
proof -
  let ?n = "length (sldIdLst prs)"
  let ?kept = "nths (sldIdLst prs) {i. int i \<in> set slide_indices}"
  let ?m = "map_sorted (sort slide_indices) 0 Map.empty"
  let ?run = "create_simple fs self slide_indices replacements_list output_path"
  from run_deletion[of prs slide_indices] obtain prs1
    where del: "delete_loop (deletion_order ?n slide_indices) prs = Inr prs1"
      and ids: "sldIdLst prs1 = ?kept"
      and gone: "\<forall>d \<in> set (deletion_order ?n slide_indices).
                   count_list (sldIdLst prs) (sldIdLst prs ! d) < 2
                   \<longrightarrow> rels prs1 (sldIdLst prs ! d) = None"
      and wf1: "set (sldIdLst prs) \<subseteq> dom (rels prs) \<longrightarrow> set (sldIdLst prs1) \<subseteq> dom (rels prs1)"
    by blast
  have count: "length ?kept = card (set slide_indices)"
    unfolding kept_count by (rule kept_count_in_range[OF assms(2)])
  have A: "sorted_wrt (>) (deletion_order ?n slide_indices)"
    by (rule deletion_order_descending)
  have B: "set (deletion_order ?n slide_indices) = {i. i < ?n \<and> int i \<notin> set slide_indices}"
    by (rule set_deletion_order)
  have C: "\<forall>idx < ?n. delete_slide idx prs = Inr (del_sldId idx (drop_rel (sldIdLst prs ! idx) prs))"
    by (simp add: delete_slide_Inr(1))
  have D: "\<exists>prs1. delete_loop (deletion_order ?n slide_indices) prs = Inr prs1
             \<and> sldIdLst prs1 = ?kept
             \<and> (\<forall>d \<in> set (deletion_order ?n slide_indices).
                   count_list (sldIdLst prs) (sldIdLst prs ! d) < 2
                   \<longrightarrow> rels prs1 (sldIdLst prs ! d) = None)"
    using del ids gone by blast
  have E: "\<forall>p. snd ?run = Inr p \<longrightarrow>
             (\<exists>doc. read_file (fst ?run) output_path = Some (Pptx doc) \<and> sldIdLst doc = ?kept
                \<and> length (sldIdLst doc) = card (set slide_indices))"
  proof (intro allI impI)
    fix p assume ok: "snd ?run = Inr p"
    from create_simple_cases[of fs self slide_indices replacements_list output_path] ok
    obtain q q1 q2 fs' where "open_presentation fs (template_path self) = Inr q"
      and "delete_loop (deletion_order (length (sldIdLst q)) slide_indices) q = Inr q1"
      and loop: "replace_loop ?m replacements_list (enumerate 0 slide_indices) q1 = Inr q2"
      and saved: "save q2 output_path fs = Inr fs'"
      and run: "?run = (fs', Inr output_path)"
      by auto
    with assms(1) del have "q1 = prs1" by simp
    with replace_loop_returns[OF loop] ids have kept: "sldIdLst q2 = ?kept" by simp
    from saved have "read_file fs' output_path = Some (Pptx q2)"
      by (auto simp: save_def write_file_def read_file_def split: if_splits)
    with run kept count show "\<exists>doc. read_file (fst ?run) output_path = Some (Pptx doc) \<and> sldIdLst doc = ?kept
                \<and> length (sldIdLst doc) = card (set slide_indices)"
      by simp
  qed
  have F: "distinct slide_indices \<and> set (sldIdLst prs) \<subseteq> dom (rels prs) \<longrightarrow>
             snd ?run = (if writable fs (resolve fs output_path) then Inr output_path else Inl OSError)"
  proof
    assume h: "distinct slide_indices \<and> set (sldIdLst prs) \<subseteq> dom (rels prs)"
    then have len: "length (sldIdLst prs1) = length slide_indices"
      unfolding ids count by (simp add: distinct_card)
    have "\<forall>i old new. (i, old) \<in> set (enumerate 0 slide_indices) \<and> ?m old = Some new
            \<longrightarrow> new < length (sldIdLst prs1)"
    proof (intro allI impI)
      fix i old new
      assume e: "(i, old) \<in> set (enumerate 0 slide_indices) \<and> ?m old = Some new"
      then have "old \<in> set (sort slide_indices)"
        by (auto simp: in_set_enumerate_eq)
      from map_sorted_bound[OF this, of 0 Map.empty] e show "new < length (sldIdLst prs1)"
        unfolding len by auto
    qed
    from replace_loop_succeeds[OF this] h wf1 obtain prs2
      where "replace_loop ?m replacements_list (enumerate 0 slide_indices) prs1 = Inr prs2"
      by blast
    then show "snd ?run = (if writable fs (resolve fs output_path) then Inr output_path else Inl OSError)"
      unfolding create_simple_def Let_def by (simp add: assms(1) del save_def write_file_def)
  qed
  show ?thesis
    by (intro conjI A B C D E F)
qed

section \<open>Properties of the command line\<close>

lemma commands_differ: "ascii ''create'' \<noteq> ascii ''analyze''"
  by (simp add: ascii_def)

lemma PPTCloner_missing: "read_file fs path = None \<Longrightarrow> PPTCloner lw fs path = Inl FileNotFoundError"
  by (simp add: PPTCloner_def)

lemma main_short: "length argv < 2 \<Longrightarrow> main lw argv fs = (fs, SysExit 1)"
  by (simp add: main_def)

lemma main_unknown:
  "2 \<le> length argv \<Longrightarrow> argv ! 1 \<noteq> ascii ''analyze'' \<Longrightarrow> argv ! 1 \<noteq> ascii ''create'' \<Longrightarrow>
   main lw argv fs = (fs, SysExit 1)"
  by (simp add: main_def)

lemma main_analyze:
  assumes "2 \<le> length argv" and "argv ! 1 = ascii ''analyze''"
  shows "main lw argv fs =
     (if length argv < 3 then (fs, SysExit 1)
      else (case PPTCloner lw fs (argv ! 2) of
              Inl e \<Rightarrow> (fs, Uncaught e)
            | Inr self \<Rightarrow>
                (if length argv > 3 \<and> argv ! 3 \<noteq> []
                 then (case export_analysis self (argv ! 3) fs of
                         Inl e \<Rightarrow> (fs, Uncaught e)
                       | Inr fs' \<Rightarrow> (fs', Returned))
                 else (fs, Returned))))"
  using assms by (simp add: main_def)

lemma main_create:
  assumes "2 \<le> length argv" and "argv ! 1 = ascii ''create''"
  shows "main lw argv fs =
     (if length argv < 5 then (fs, SysExit 1)
      else (case load_plan fs (argv ! 3) of
              Inl e \<Rightarrow> (fs, Uncaught e)
            | Inr content_plan \<Rightarrow>
                (case PPTCloner lw fs (argv ! 2) of
                   Inl e \<Rightarrow> (fs, Uncaught e)
                 | Inr self \<Rightarrow>
                     (fst (create_simple fs self (map (resolve_item self) content_plan)
                             (map replacements_of content_plan) (argv ! 4)),
                      case snd (create_simple fs self (map (resolve_item self) content_plan)
                             (map replacements_of content_plan) (argv ! 4)) of
                        Inl e \<Rightarrow> Uncaught e
                      | Inr _ \<Rightarrow> Returned))))"
proof -
  have pair: "(case r of (fs', Inl e) \<Rightarrow> (fs', Uncaught e) | (fs', Inr x) \<Rightarrow> (fs', Returned))
      = (fst r, case snd r of Inl e \<Rightarrow> Uncaught e | Inr x \<Rightarrow> Returned)"
    for r :: "filesystem \<times> (error + pystr)"
    by (cases r) (simp split: sum.splits)
  show ?thesis
    using assms commands_differ unfolding main_def pair by simp
qed

lemma main_exit_code: "exit_code (snd (main lw argv fs)) = 0 \<or> exit_code (snd (main lw argv fs)) = 1"
proof (cases "length argv < 2")
  case True
  then show ?thesis by (simp add: main_short)
next
  case False
  then have two: "2 \<le> length argv" by simp
  consider "argv ! 1 = ascii ''analyze''" | "argv ! 1 = ascii ''create''"
    | "argv ! 1 \<noteq> ascii ''analyze''" "argv ! 1 \<noteq> ascii ''create''"
    by blast
  then show ?thesis
  proof cases
    case 1
    show ?thesis unfolding main_analyze[OF two 1] by (simp split: sum.splits)
  next
    case 2
    show ?thesis unfolding main_create[OF two 2] by (simp split: sum.splits)
  next
    case 3
    then show ?thesis by (simp add: main_unknown[OF two])
  qed
qed

text \<open>
  C9. The process exits with code 1 when the arguments are missing or too few (no
  command; \<open>analyze\<close> without a template; \<open>create\<close> without its three paths), when the
  command is unknown, and when the template file does not exist, which ends the run
  with an uncaught exception. It exits with code 0 when \<open>analyze\<close> has built the
  cloner and the export, if one is asked for, can write its file, and when \<open>create\<close> has
  loaded the plan, built the cloner and \<open>create_simple\<close> has returned. An export that
  cannot write its file ends the run with an uncaught \<open>OSError\<close> and code 1. No other
  exit code occurs.
\<close>

theorem exit_codes:
  "(length argv < 2 \<longrightarrow> exit_code (snd (main lw argv fs)) = 1)
   \<and> (2 \<le> length argv \<and> argv ! 1 = ascii ''analyze'' \<and> length argv < 3
        \<longrightarrow> exit_code (snd (main lw argv fs)) = 1)
   \<and> (2 \<le> length argv \<and> argv ! 1 = ascii ''create'' \<and> length argv < 5
        \<longrightarrow> exit_code (snd (main lw argv fs)) = 1)
   \<and> (2 \<le> length argv \<and> argv ! 1 \<noteq> ascii ''analyze'' \<and> argv ! 1 \<noteq> ascii ''create''
        \<longrightarrow> exit_code (snd (main lw argv fs)) = 1)
   \<and> (3 \<le> length argv \<and> argv ! 1 = ascii ''analyze'' \<and> read_file fs (argv ! 2) = None
        \<longrightarrow> snd (main lw argv fs) = Uncaught FileNotFoundError \<and> exit_code (snd (main lw argv fs)) = 1)
   \<and> (5 \<le> length argv \<and> argv ! 1 = ascii ''create'' \<and> read_file fs (argv ! 2) = None
        \<longrightarrow> (\<exists>e. snd (main lw argv fs) = Uncaught e) \<and> exit_code (snd (main lw argv fs)) = 1)
   \<and> (3 \<le> length argv \<and> argv ! 1 = ascii ''analyze'' \<and> PPTCloner lw fs (argv ! 2) = Inr self \<and>
       (3 < length argv \<and> argv ! 3 \<noteq> [] \<longrightarrow> writable fs (resolve fs (argv ! 3)))
        \<longrightarrow> snd (main lw argv fs) = Returned \<and> exit_code (snd (main lw argv fs)) = 0)
   \<and> (3 < length argv \<and> argv ! 1 = ascii ''analyze'' \<and> PPTCloner lw fs (argv ! 2) = Inr self \<and>
       argv ! 3 \<noteq> [] \<and> \<not> writable fs (resolve fs (argv ! 3))
        \<longrightarrow> snd (main lw argv fs) = Uncaught OSError \<and> exit_code (snd (main lw argv fs)) = 1)
   \<and> (5 \<le> length argv \<and> argv ! 1 = ascii ''create'' \<and> load_plan fs (argv ! 3) = Inr content_plan \<and>
       PPTCloner lw fs (argv ! 2) = Inr self \<and>
       snd (create_simple fs self (map (resolve_item self) content_plan)
              (map replacements_of content_plan) (argv ! 4)) = Inr p
        \<longrightarrow> snd (main lw argv fs) = Returned \<and> exit_code (snd (main lw argv fs)) = 0)
   \<and> (exit_code (snd (main lw argv fs)) = 0 \<or> exit_code (snd (main lw argv fs)) = 1)"
proof -
  have A: "length argv < 2 \<longrightarrow> exit_code (snd (main lw argv fs)) = 1"
    by (simp add: main_short)
  have B: "2 \<le> length argv \<and> argv ! 1 = ascii ''analyze'' \<and> length argv < 3
        \<longrightarrow> exit_code (snd (main lw argv fs)) = 1"
    by (simp add: main_analyze)
  have C: "2 \<le> length argv \<and> argv ! 1 = ascii ''create'' \<and> length argv < 5
        \<longrightarrow> exit_code (snd (main lw argv fs)) = 1"
    by (simp add: main_create)
  have D: "2 \<le> length argv \<and> argv ! 1 \<noteq> ascii ''analyze'' \<and> argv ! 1 \<noteq> ascii ''create''
        \<longrightarrow> exit_code (snd (main lw argv fs)) = 1"
    by (simp add: main_unknown)
  have E: "3 \<le> length argv \<and> argv ! 1 = ascii ''analyze'' \<and> read_file fs (argv ! 2) = None
        \<longrightarrow> snd (main lw argv fs) = Uncaught FileNotFoundError \<and> exit_code (snd (main lw argv fs)) = 1"
    by (simp add: main_analyze PPTCloner_missing)
  have F: "5 \<le> length argv \<and> argv ! 1 = ascii ''create'' \<and> read_file fs (argv ! 2) = None
        \<longrightarrow> (\<exists>e. snd (main lw argv fs) = Uncaught e) \<and> exit_code (snd (main lw argv fs)) = 1"
    by (simp add: main_create PPTCloner_missing split: sum.splits)
  have G: "3 \<le> length argv \<and> argv ! 1 = ascii ''analyze'' \<and> PPTCloner lw fs (argv ! 2) = Inr self \<and>
       (3 < length argv \<and> argv ! 3 \<noteq> [] \<longrightarrow> writable fs (resolve fs (argv ! 3)))
        \<longrightarrow> snd (main lw argv fs) = Returned \<and> exit_code (snd (main lw argv fs)) = 0"
    by (simp add: main_analyze export_analysis_def write_file_def)
  have G': "3 < length argv \<and> argv ! 1 = ascii ''analyze'' \<and> PPTCloner lw fs (argv ! 2) = Inr self \<and>
       argv ! 3 \<noteq> [] \<and> \<not> writable fs (resolve fs (argv ! 3))
        \<longrightarrow> snd (main lw argv fs) = Uncaught OSError \<and> exit_code (snd (main lw argv fs)) = 1"
    by (simp add: main_analyze export_analysis_def write_file_def)
  have H: "5 \<le> length argv \<and> argv ! 1 = ascii ''create'' \<and> load_plan fs (argv ! 3) = Inr content_plan \<and>
       PPTCloner lw fs (argv ! 2) = Inr self \<and>
       snd (create_simple fs self (map (resolve_item self) content_plan)
              (map replacements_of content_plan) (argv ! 4)) = Inr p
        \<longrightarrow> snd (main lw argv fs) = Returned \<and> exit_code (snd (main lw argv fs)) = 0"
    by (simp add: main_create)
  show ?thesis
    by (intro conjI A B C D E F G G' H main_exit_code)
qed

section \<open>Properties of the file system\<close>

lemma write_file_frame:
  assumes "write_file path content fs = Inr fs'"
  shows "resolve fs' = resolve fs \<and> writable fs' = writable fs
       \<and> (\<forall>name. name \<noteq> resolve fs path \<longrightarrow> files fs' name = files fs name)"
  using assms by (auto simp: write_file_def split: if_splits)

lemma create_simple_frame:
  "resolve (fst (create_simple fs self slide_indices replacements_list output_path)) = resolve fs
   \<and> (\<forall>name. name \<noteq> resolve fs output_path \<longrightarrow>
          files (fst (create_simple fs self slide_indices replacements_list output_path)) name
            = files fs name)"
proof -
  from create_simple_cases[of fs self slide_indices replacements_list output_path]
  show ?thesis
  proof (elim disjE exE conjE)
    fix e assume "create_simple fs self slide_indices replacements_list output_path = (fs, Inl e)"
    then show ?thesis by simp
  next
    fix prs prs1 prs2 fs'
    assume "save prs2 output_path fs = Inr fs'"
      and "create_simple fs self slide_indices replacements_list output_path = (fs', Inr output_path)"
    then show ?thesis
      using write_file_frame[of output_path "Pptx prs2" fs fs'] by (simp add: save_def)
  qed
qed

lemma create_from_plan_frame:
  "resolve (fst (create_from_plan fs self content_plan output_path)) = resolve fs
   \<and> (\<forall>name. name \<noteq> resolve fs output_path \<longrightarrow>
          files (fst (create_from_plan fs self content_plan output_path)) name = files fs name)"
proof -
  from create_from_plan_cases[of fs self content_plan output_path]
  show ?thesis
  proof (elim disjE exE conjE)
    fix e assume "create_from_plan fs self content_plan output_path = (fs, Inl e)"
    then show ?thesis by simp
  next
    fix prs prs1 prs2 fs'
    assume "save prs2 output_path fs = Inr fs'"
      and "create_from_plan fs self content_plan output_path = (fs', Inr output_path)"
    then show ?thesis
      using write_file_frame[of output_path "Pptx prs2" fs fs'] by (simp add: save_def)
  qed
qed

lemma main_resolve: "resolve (fst (main lw argv fs)) = resolve fs"
proof (cases "length argv < 2")
  case True
  then show ?thesis by (simp add: main_short)
next
  case False
  then have two: "2 \<le> length argv" by simp
  consider "argv ! 1 = ascii ''analyze''" | "argv ! 1 = ascii ''create''"
    | "argv ! 1 \<noteq> ascii ''analyze''" "argv ! 1 \<noteq> ascii ''create''"
    by blast
  then show ?thesis
  proof cases
    case 1
    show ?thesis
      unfolding main_analyze[OF two 1]
      by (auto simp: export_analysis_def dest: write_file_frame split: if_splits sum.splits)
  next
    case 2
    show ?thesis
      unfolding main_create[OF two 2]
      by (simp add: create_simple_frame split: sum.splits)
  next
    case 3
    then show ?thesis by (simp add: main_unknown[OF two])
  qed
qed

lemma main_frame:
  assumes "files (fst (main lw argv fs)) name \<noteq> files fs name"
  shows "(argv ! 1 = ascii ''analyze'' \<and> 3 < length argv \<and> name = resolve fs (argv ! 3))
       \<or> (argv ! 1 = ascii ''create'' \<and> 5 \<le> length argv \<and> name = resolve fs (argv ! 4))"
proof (cases "length argv < 2")
  case True
  with assms show ?thesis by (simp add: main_short)
next
  case False
  then have two: "2 \<le> length argv" by simp
  consider "argv ! 1 = ascii ''analyze''" | "argv ! 1 = ascii ''create''"
    | "argv ! 1 \<noteq> ascii ''analyze''" "argv ! 1 \<noteq> ascii ''create''"
    by blast
  then show ?thesis
  proof cases
    case 1
    have "3 < length argv \<and> name = resolve fs (argv ! 3)"
    proof (rule ccontr)
      assume "\<not> (3 < length argv \<and> name = resolve fs (argv ! 3))"
      then have "files (fst (main lw argv fs)) name = files fs name"
        unfolding main_analyze[OF two 1]
        by (auto simp: export_analysis_def dest: write_file_frame split: if_splits sum.splits)
      with assms show False by simp
    qed
    with 1 show ?thesis by simp
  next
    case 2
    have frame: "files (fst (create_simple fs self xs rl (argv ! 4))) name = files fs name"
      if "name \<noteq> resolve fs (argv ! 4)" for self xs rl
      using that create_simple_frame[of fs self xs rl "argv ! 4"] by simp
    have "5 \<le> length argv \<and> name = resolve fs (argv ! 4)"
    proof (rule ccontr)
      assume "\<not> (5 \<le> length argv \<and> name = resolve fs (argv ! 4))"
      then have "files (fst (main lw argv fs)) name = files fs name"
        unfolding main_create[OF two 2] using frame
        by (auto split: sum.splits)
      with assms show False by simp
    qed
    with 2 show ?thesis by simp
  next
    case 3
    with assms show ?thesis by (simp add: main_unknown[OF two])
  qed
qed

text \<open>
  C10 (as amended). A run writes at most one file, the one the output path the caller
  gave resolves to (the third path of \<open>create\<close>, the optional second path of \<open>analyze\<close>);
  every other file is as it was, and no run changes how paths resolve. So the template
  on disk is unchanged by every run whose output path does not name the template file
  itself, under the same spelling or another one. Analysis itself only reads: the
  constructor of the cloner returns no file system.
\<close>

theorem template_unchanged_unless_output:
  "(\<forall>name. name \<noteq> resolve fs output_path \<longrightarrow>
        files (fst (create_simple fs self slide_indices replacements_list output_path)) name
          = files fs name)
   \<and> (\<forall>name. name \<noteq> resolve fs output_path \<longrightarrow>
        files (fst (create_from_plan fs self content_plan output_path)) name = files fs name)
   \<and> resolve (fst (create_simple fs self slide_indices replacements_list output_path)) = resolve fs
   \<and> resolve (fst (create_from_plan fs self content_plan output_path)) = resolve fs
   \<and> resolve (fst (main lw argv fs)) = resolve fs
   \<and> (resolve fs output_path \<noteq> resolve fs (template_path self) \<longrightarrow>
        read_file (fst (create_simple fs self slide_indices replacements_list output_path))
            (template_path self)
          = read_file fs (template_path self)
        \<and> read_file (fst (create_from_plan fs self content_plan output_path)) (template_path self)
          = read_file fs (template_path self))
   \<and> (\<forall>name. files (fst (main lw argv fs)) name \<noteq> files fs name \<longrightarrow>
        (argv ! 1 = ascii ''analyze'' \<and> 3 < length argv \<and> name = resolve fs (argv ! 3))
        \<or> (argv ! 1 = ascii ''create'' \<and> 5 \<le> length argv \<and> name = resolve fs (argv ! 4)))
   \<and> ((argv ! 1 = ascii ''analyze'' \<and> 3 < length argv
          \<longrightarrow> resolve fs (argv ! 3) \<noteq> resolve fs (argv ! 2)) \<and>
       (argv ! 1 = ascii ''create'' \<and> 5 \<le> length argv
          \<longrightarrow> resolve fs (argv ! 4) \<noteq> resolve fs (argv ! 2))
        \<longrightarrow> read_file (fst (main lw argv fs)) (argv ! 2) = read_file fs (argv ! 2))"
proof -
  note cs = create_simple_frame[of fs self slide_indices replacements_list output_path]
  note cp = create_from_plan_frame[of fs self content_plan output_path]
  have A: "\<forall>name. name \<noteq> resolve fs output_path \<longrightarrow>
        files (fst (create_simple fs self slide_indices replacements_list output_path)) name
          = files fs name"
    using cs by simp
  have B: "\<forall>name. name \<noteq> resolve fs output_path \<longrightarrow>
        files (fst (create_from_plan fs self content_plan output_path)) name = files fs name"
    using cp by simp
  have C: "resolve (fst (create_simple fs self slide_indices replacements_list output_path)) = resolve fs"
    using cs by simp
  have D: "resolve (fst (create_from_plan fs self content_plan output_path)) = resolve fs"
    using cp by simp
  have E: "resolve (fst (main lw argv fs)) = resolve fs"
    by (rule main_resolve)
  have F: "resolve fs output_path \<noteq> resolve fs (template_path self) \<longrightarrow>
        read_file (fst (create_simple fs self slide_indices replacements_list output_path))
            (template_path self)
          = read_file fs (template_path self)
        \<and> read_file (fst (create_from_plan fs self content_plan output_path)) (template_path self)
          = read_file fs (template_path self)"
  proof
    assume "resolve fs output_path \<noteq> resolve fs (template_path self)"
    then have ne: "resolve fs (template_path self) \<noteq> resolve fs output_path" by simp
    from A ne C B D
    show "read_file (fst (create_simple fs self slide_indices replacements_list output_path))
            (template_path self)
          = read_file fs (template_path self)
        \<and> read_file (fst (create_from_plan fs self content_plan output_path)) (template_path self)
          = read_file fs (template_path self)"
      unfolding read_file_def by simp
  qed
  have G: "\<forall>name. files (fst (main lw argv fs)) name \<noteq> files fs name \<longrightarrow>
        (argv ! 1 = ascii ''analyze'' \<and> 3 < length argv \<and> name = resolve fs (argv ! 3))
        \<or> (argv ! 1 = ascii ''create'' \<and> 5 \<le> length argv \<and> name = resolve fs (argv ! 4))"
    using main_frame[of lw argv fs] by blast
  have H: "(argv ! 1 = ascii ''analyze'' \<and> 3 < length argv
          \<longrightarrow> resolve fs (argv ! 3) \<noteq> resolve fs (argv ! 2)) \<and>
       (argv ! 1 = ascii ''create'' \<and> 5 \<le> length argv
          \<longrightarrow> resolve fs (argv ! 4) \<noteq> resolve fs (argv ! 2))
        \<longrightarrow> read_file (fst (main lw argv fs)) (argv ! 2) = read_file fs (argv ! 2)"
  proof
    assume h: "(argv ! 1 = ascii ''analyze'' \<and> 3 < length argv
          \<longrightarrow> resolve fs (argv ! 3) \<noteq> resolve fs (argv ! 2)) \<and>
       (argv ! 1 = ascii ''create'' \<and> 5 \<le> length argv
          \<longrightarrow> resolve fs (argv ! 4) \<noteq> resolve fs (argv ! 2))"
    have "files (fst (main lw argv fs)) (resolve fs (argv ! 2)) = files fs (resolve fs (argv ! 2))"
    proof (rule ccontr)
      assume "files (fst (main lw argv fs)) (resolve fs (argv ! 2)) \<noteq> files fs (resolve fs (argv ! 2))"
      from main_frame[OF this] h show False by metis
    qed
    then show "read_file (fst (main lw argv fs)) (argv ! 2) = read_file fs (argv ! 2)"
      unfolding read_file_def E by simp
  qed
  show ?thesis
    by (intro conjI A B C D E F G H)
qed

section \<open>The runs on the example template\<close>

lemmas eval_fs = read_file_def write_file_def example_fs_def example_fs_plan_def
  example_resolve_def ascii_def prefix_code

lemmas eval_create = create_simple_def create_from_plan_def deletion_order_def to_delete_def
  delete_slide_def drop_rel_def del_sldId_def slide_at_def save_def open_presentation_def
  enumerate_simps Let_def resolve_item_def replacements_of_def saved_texts_def slide_texts_def
  read_file_def write_file_def example_resolve_def
  example_fs_def example_template_def example_slide_def entry_def

lemma PPTCloner_example: "PPTCloner ascii_lower example_fs (ascii ''t.pptx'') = Inr example_cloner"
  by (simp add: PPTCloner_def analyze_template_def open_presentation_def eval_fs
      example_template_def example_cloner_def)

lemma PPTCloner_example_plan:
  "PPTCloner ascii_lower (example_fs_plan content_plan) (ascii ''t.pptx'') = Inr example_cloner"
  by (simp add: PPTCloner_def analyze_template_def open_presentation_def eval_fs
      example_template_def example_cloner_def)

lemma open_example: "open_presentation example_fs (ascii ''t.pptx'') = Inr example_template"
  by (simp add: open_presentation_def eval_fs)

lemma open_example_plan:
  "open_presentation (example_fs_plan content_plan) (ascii ''t.pptx'') = Inr example_template"
  by (simp add: open_presentation_def eval_fs)

lemma load_example_plan:
  "load_plan (example_fs_plan content_plan) (ascii ''plan.json'') = Inr content_plan"
  by (simp add: load_plan_def eval_fs)

lemma example_template_path: "template_path example_cloner = ascii ''t.pptx''"
  by (simp add: example_cloner_def)

lemma example_length: "length (sldIdLst example_template) = 3"
  by (simp add: example_template_def)

lemma resolve_entry: "resolve_item self (entry i repl) = i" "replacements_of (entry i repl) = repl"
  by (simp_all add: resolve_item_def replacements_of_def entry_def)

text \<open>
  C1, evaluated where the code departs from the claim. The plan asks for position 0
  twice and for position 1 once, with the dictionary \<open>A \<mapsto> X\<close> on its first entry. The
  map that \<open>create_simple\<close> builds over the sorted request sends position 0 to 1 and
  position 1 to 2, though two slides survive. The run ends with \<open>IndexError\<close> and writes
  nothing; with a dictionary for the first entry only it returns, and the dictionary
  meant for the slide from position 0 has been applied to the slide from position 1.
  \<open>create_from_plan\<close>, which counts the surviving positions, replaces the text of the
  slide from position 0.
\<close>

theorem duplicate_positions_mapped_wrongly:
  "map (map_sorted (sort [0, 0, 1]) 0 Map.empty) [0, 1] = [Some 1, Some 2]
   \<and> snd (create_simple example_fs example_cloner [0, 0, 1]
            [[(ascii ''A'', ascii ''X'')], [], []] (ascii ''out.pptx'')) = Inl IndexError
   \<and> saved_texts (fst (create_simple example_fs example_cloner [0, 0, 1]
            [[(ascii ''A'', ascii ''X'')], [], []] (ascii ''out.pptx''))) (ascii ''out.pptx'') = None
   \<and> saved_texts (fst (create_simple example_fs example_cloner [0, 0, 1]
            [[(ascii ''B'', ascii ''X'')]] (ascii ''out.pptx''))) (ascii ''out.pptx'')
        = Some [[ascii ''A''], [ascii ''X'']]
   \<and> saved_texts (fst (create_from_plan example_fs example_cloner
            [entry 0 [(ascii ''A'', ascii ''X'')], entry 0 [], entry 1 []] (ascii ''out.pptx'')))
          (ascii ''out.pptx'')
        = Some [[ascii ''X''], [ascii ''B'']]"
  by (simp add: eval_create example_template_path eval_str eval_text)

text \<open>
  C2, witness: keeping position 1 deletes positions 2 and 0 in that order; a request
  for positions 2 and 0 saves the slides from positions 0 and 2, in the template's
  order, and ends with the \<open>OSError\<close> of \<open>prs.save\<close> where the output cannot be written.
\<close>

theorem pruning_keeps_requested_slides_in_order_witness:
  "deletion_order 3 [1] = [2, 0]
   \<and> sorted_wrt (>) (deletion_order 3 [1])
   \<and> snd (create_simple example_fs example_cloner [2, 0] [[], []] (ascii ''out.pptx''))
        = Inr (ascii ''out.pptx'')
   \<and> (\<exists>doc. read_file (fst (create_simple example_fs example_cloner [2, 0] [[], []] (ascii ''out.pptx'')))
               (ascii ''out.pptx'') = Some (Pptx doc)
          \<and> sldIdLst doc = [7, 9] \<and> length (sldIdLst doc) = 2)
   \<and> snd (create_simple example_fs example_cloner [2, 0] [[], []] (ascii ''out/x.pptx''))
        = Inl OSError"
proof -
  have opened: "open_presentation example_fs (template_path example_cloner) = Inr example_template"
    unfolding example_template_path by (rule open_example)
  have r1: "\<forall>k \<in> set [1 :: int]. 0 \<le> k \<and> k < int (length (sldIdLst example_template))"
    and r2: "\<forall>k \<in> set [2, 0 :: int]. 0 \<le> k \<and> k < int (length (sldIdLst example_template))"
    by (simp_all add: example_length)
  note t1 = pruning_keeps_requested_slides_in_order[OF opened r1,
      where replacements_list = "[]" and output_path = "ascii ''out.pptx''"]
  note t2 = pruning_keeps_requested_slides_in_order[OF opened r2,
      where replacements_list = "[[], []]" and output_path = "ascii ''out.pptx''"]
  note t3 = pruning_keeps_requested_slides_in_order[OF opened r2,
      where replacements_list = "[[], []]" and output_path = "ascii ''out/x.pptx''"]
  have w: "writable example_fs (resolve example_fs (ascii ''out.pptx''))"
    "\<not> writable example_fs (resolve example_fs (ascii ''out/x.pptx''))"
    by (simp_all add: eval_fs)
  have wf: "distinct [2, 0 :: int] \<and> set (sldIdLst example_template) \<subseteq> dom (rels example_template)"
    by (simp add: example_template_def)
  have a: "deletion_order 3 [1] = [2, 0]"
    by (simp add: deletion_order_def to_delete_def numeral_3_eq_3)
  have b: "sorted_wrt (>) (deletion_order 3 [1])"
    using t1 unfolding example_length by blast
  have c: "snd (create_simple example_fs example_cloner [2, 0] [[], []] (ascii ''out.pptx''))
        = Inr (ascii ''out.pptx'')"
    using t2 wf w(1) by simp
  have e: "snd (create_simple example_fs example_cloner [2, 0] [[], []] (ascii ''out/x.pptx''))
        = Inl OSError"
    using t3 wf w(2) by simp
  have kept: "nths (sldIdLst example_template) {i. int i \<in> set [2, 0]} = [7, 9]"
    by (simp add: example_template_def nths_Cons)
  have two: "card (set [2, 0 :: int]) = 2" by simp
  have d: "\<exists>doc. read_file (fst (create_simple example_fs example_cloner [2, 0] [[], []] (ascii ''out.pptx'')))
               (ascii ''out.pptx'') = Some (Pptx doc)
          \<and> sldIdLst doc = [7, 9] \<and> length (sldIdLst doc) = 2"
    using t2 c unfolding kept two by blast
  from a b c d e show ?thesis by blast
qed

text \<open>
  C7, witness: a plan that asks for positions 0 and 5 of the three-slide template.
\<close>

theorem out_of_range_position_raises_witness:
  "create_simple (example_fs_plan [entry 0 [], entry 5 []]) example_cloner [0, 5] [[], []]
       (ascii ''out.pptx'')
     = (example_fs_plan [entry 0 [], entry 5 []], Inl IndexError)
   \<and> main ascii_lower [ascii ''ppt_cloner.py'', ascii ''create'', ascii ''t.pptx'', ascii ''plan.json'',
            ascii ''out.pptx''] (example_fs_plan [entry 0 [], entry 5 []])
     = (example_fs_plan [entry 0 [], entry 5 []], Uncaught IndexError)"
proof -
  let ?plan = "[entry 0 [], entry 5 []]"
  let ?argv = "[ascii ''ppt_cloner.py'', ascii ''create'', ascii ''t.pptx'', ascii ''plan.json'',
            ascii ''out.pptx'']"
  have item: "entry 5 [] \<in> set ?plan" by simp
  have ts: "template_slide (entry 5 []) = Some 5" by (simp add: entry_def)
  have out: "(5 :: int) < 0 \<or> int (length (sldIdLst example_template)) \<le> 5"
    by (simp add: example_length)
  note t = out_of_range_position_raises[OF PPTCloner_example_plan open_example_plan item ts out,
      where out = "ascii ''out.pptx''" and argv = ?argv]
  have args: "5 \<le> length ?argv \<and> ?argv ! 1 = ascii ''create'' \<and> ?argv ! 2 = ascii ''t.pptx'' \<and>
      load_plan (example_fs_plan ?plan) (?argv ! 3) = Inr ?plan"
    by (simp add: load_example_plan)
  from t args show ?thesis by (simp add: resolve_entry)
qed


text \<open>
  C9, witness: one command line for each case.
\<close>

theorem exit_codes_witness:
  "exit_code (snd (main ascii_lower [] example_fs)) = 1
   \<and> exit_code (snd (main ascii_lower [ascii ''ppt_cloner.py'', ascii ''analyze''] example_fs)) = 1
   \<and> exit_code (snd (main ascii_lower [ascii ''ppt_cloner.py'', ascii ''create'', ascii ''t.pptx'',
         ascii ''plan.json''] example_fs)) = 1
   \<and> exit_code (snd (main ascii_lower [ascii ''ppt_cloner.py'', ascii ''convert'', ascii ''t.pptx'']
         example_fs)) = 1
   \<and> exit_code (snd (main ascii_lower [ascii ''ppt_cloner.py'', ascii ''analyze'', ascii ''missing.pptx'']
         example_fs)) = 1
   \<and> exit_code (snd (main ascii_lower [ascii ''ppt_cloner.py'', ascii ''create'', ascii ''missing.pptx'',
         ascii ''plan.json'', ascii ''out.pptx''] (example_fs_plan [entry 0 []]))) = 1
   \<and> exit_code (snd (main ascii_lower [ascii ''ppt_cloner.py'', ascii ''analyze'', ascii ''t.pptx'']
         example_fs)) = 0
   \<and> exit_code (snd (main ascii_lower [ascii ''ppt_cloner.py'', ascii ''create'', ascii ''t.pptx'',
         ascii ''plan.json'', ascii ''out.pptx''] (example_fs_plan [entry 0 []]))) = 0
   \<and> exit_code (snd (main ascii_lower [ascii ''ppt_cloner.py'', ascii ''analyze'', ascii ''t.pptx'',
         ascii ''a.json''] example_fs)) = 0
   \<and> snd (main ascii_lower [ascii ''ppt_cloner.py'', ascii ''analyze'', ascii ''t.pptx'',
         ascii ''out/a.json''] example_fs) = Uncaught OSError"
proof -
  have names: "ascii ''convert'' \<noteq> ascii ''analyze''" "ascii ''convert'' \<noteq> ascii ''create''"
    by (simp_all add: ascii_def)
  have missing: "read_file example_fs (ascii ''missing.pptx'') = None"
    "read_file (example_fs_plan [entry 0 []]) (ascii ''missing.pptx'') = None"
    by (simp_all add: eval_fs)
  have w: "writable example_fs (resolve example_fs (ascii ''a.json''))"
    "\<not> writable example_fs (resolve example_fs (ascii ''out/a.json''))"
    "ascii ''a.json'' \<noteq> []" "ascii ''out/a.json'' \<noteq> []"
    by (simp_all add: eval_fs)
  have saved: "snd (create_simple (example_fs_plan [entry 0 []]) example_cloner
        (map (resolve_item example_cloner) [entry 0 []]) (map replacements_of [entry 0 []])
        (ascii ''out.pptx'')) = Inr (ascii ''out.pptx'')"
    by (simp add: eval_create example_fs_plan_def example_template_path eval_str eval_text)
  have a: "exit_code (snd (main ascii_lower [] example_fs)) = 1"
    using exit_codes[of "[]" ascii_lower example_fs] by simp
  have b: "exit_code (snd (main ascii_lower [ascii ''ppt_cloner.py'', ascii ''analyze''] example_fs)) = 1"
    using exit_codes[of "[ascii ''ppt_cloner.py'', ascii ''analyze'']" ascii_lower example_fs] by simp
  have c: "exit_code (snd (main ascii_lower [ascii ''ppt_cloner.py'', ascii ''create'', ascii ''t.pptx'',
         ascii ''plan.json''] example_fs)) = 1"
    using exit_codes[of "[ascii ''ppt_cloner.py'', ascii ''create'', ascii ''t.pptx'',
         ascii ''plan.json'']" ascii_lower example_fs] by simp
  have d: "exit_code (snd (main ascii_lower [ascii ''ppt_cloner.py'', ascii ''convert'', ascii ''t.pptx'']
         example_fs)) = 1"
    using exit_codes[of "[ascii ''ppt_cloner.py'', ascii ''convert'', ascii ''t.pptx'']" ascii_lower example_fs]
      names by simp
  have e: "exit_code (snd (main ascii_lower [ascii ''ppt_cloner.py'', ascii ''analyze'', ascii ''missing.pptx'']
         example_fs)) = 1"
    using exit_codes[of "[ascii ''ppt_cloner.py'', ascii ''analyze'', ascii ''missing.pptx'']" ascii_lower
        example_fs] missing(1) by simp
  have f: "exit_code (snd (main ascii_lower [ascii ''ppt_cloner.py'', ascii ''create'', ascii ''missing.pptx'',
         ascii ''plan.json'', ascii ''out.pptx''] (example_fs_plan [entry 0 []]))) = 1"
    using exit_codes[of "[ascii ''ppt_cloner.py'', ascii ''create'', ascii ''missing.pptx'',
         ascii ''plan.json'', ascii ''out.pptx'']" ascii_lower "example_fs_plan [entry 0 []]"] missing(2)
    by simp
  have g: "exit_code (snd (main ascii_lower [ascii ''ppt_cloner.py'', ascii ''analyze'', ascii ''t.pptx'']
         example_fs)) = 0"
    using exit_codes[of "[ascii ''ppt_cloner.py'', ascii ''analyze'', ascii ''t.pptx'']" ascii_lower
        example_fs example_cloner] PPTCloner_example by simp
  have h: "exit_code (snd (main ascii_lower [ascii ''ppt_cloner.py'', ascii ''create'', ascii ''t.pptx'',
         ascii ''plan.json'', ascii ''out.pptx''] (example_fs_plan [entry 0 []]))) = 0"
    using exit_codes[of "[ascii ''ppt_cloner.py'', ascii ''create'', ascii ''t.pptx'',
         ascii ''plan.json'', ascii ''out.pptx'']" ascii_lower "example_fs_plan [entry 0 []]"
        example_cloner "[entry 0 []]" "ascii ''out.pptx''"]
      PPTCloner_example_plan[of "[entry 0 []]"] load_example_plan[of "[entry 0 []]"] saved
    by simp
  have i: "exit_code (snd (main ascii_lower [ascii ''ppt_cloner.py'', ascii ''analyze'', ascii ''t.pptx'',
         ascii ''a.json''] example_fs)) = 0"
    using exit_codes[of "[ascii ''ppt_cloner.py'', ascii ''analyze'', ascii ''t.pptx'', ascii ''a.json'']"
        ascii_lower example_fs example_cloner] PPTCloner_example w(1) by simp
  have j: "snd (main ascii_lower [ascii ''ppt_cloner.py'', ascii ''analyze'', ascii ''t.pptx'',
         ascii ''out/a.json''] example_fs) = Uncaught OSError"
    using exit_codes[of "[ascii ''ppt_cloner.py'', ascii ''analyze'', ascii ''t.pptx'',
         ascii ''out/a.json'']" ascii_lower example_fs example_cloner] PPTCloner_example w(2) w(4)
    by simp
  show ?thesis
    by (intro conjI a b c d e f g h i j)
qed

text \<open>
  C10, counterexample to the claim as written: the caller may give an output path that
  names the template file, here under another spelling than the template path. The
  run keeps the first slide, returns, and the template on disk, which held three
  slides, holds one.
\<close>

theorem create_overwrites_template:
  "ascii ''./t.pptx'' \<noteq> ascii ''t.pptx''
   \<and> saved_texts (example_fs_plan [entry 0 []]) (ascii ''t.pptx'')
     = Some [[ascii ''A''], [ascii ''B''], [ascii ''C'']]
   \<and> snd (main ascii_lower [ascii ''ppt_cloner.py'', ascii ''create'', ascii ''t.pptx'', ascii ''plan.json'',
            ascii ''./t.pptx''] (example_fs_plan [entry 0 []])) = Returned
   \<and> saved_texts (fst (main ascii_lower [ascii ''ppt_cloner.py'', ascii ''create'', ascii ''t.pptx'',
            ascii ''plan.json'', ascii ''./t.pptx''] (example_fs_plan [entry 0 []]))) (ascii ''t.pptx'')
     = Some [[ascii ''A'']]"
proof -
  let ?fs = "example_fs_plan [entry 0 []]"
  let ?argv = "[ascii ''ppt_cloner.py'', ascii ''create'', ascii ''t.pptx'', ascii ''plan.json'',
            ascii ''./t.pptx'']"
  have args: "2 \<le> length ?argv" "?argv ! 1 = ascii ''create''" by simp_all
  have spelled: "ascii ''./t.pptx'' \<noteq> ascii ''t.pptx''"
    by (simp add: ascii_def)
  have before: "saved_texts ?fs (ascii ''t.pptx'')
     = Some [[ascii ''A''], [ascii ''B''], [ascii ''C'']]"
    by (simp add: eval_create example_fs_plan_def eval_str eval_text)
  have run: "snd (create_simple ?fs example_cloner [0] [[]] (ascii ''./t.pptx'')) = Inr (ascii ''./t.pptx'')
      \<and> saved_texts (fst (create_simple ?fs example_cloner [0] [[]] (ascii ''./t.pptx'')))
           (ascii ''t.pptx'') = Some [[ascii ''A'']]"
    by (simp add: eval_create example_fs_plan_def example_template_path eval_str eval_text)
  have "main ascii_lower ?argv ?fs =
      (fst (create_simple ?fs example_cloner [0] [[]] (ascii ''./t.pptx'')),
       case snd (create_simple ?fs example_cloner [0] [[]] (ascii ''./t.pptx'')) of
         Inl e \<Rightarrow> Uncaught e | Inr _ \<Rightarrow> Returned)"
    unfolding main_create[OF args]
    by (simp add: load_example_plan PPTCloner_example_plan resolve_entry)
  with spelled before run show ?thesis by simp
qed

text \<open>
  C10, witness: runs of \<open>create\<close> and \<open>analyze\<close> whose output paths name another file
  than the template.
\<close>

theorem template_unchanged_unless_output_witness:
  "read_file (fst (main ascii_lower [ascii ''ppt_cloner.py'', ascii ''create'', ascii ''t.pptx'',
            ascii ''plan.json'', ascii ''./out.pptx''] (example_fs_plan [entry 0 []]))) (ascii ''t.pptx'')
     = Some (Pptx example_template)
   \<and> read_file (fst (main ascii_lower [ascii ''ppt_cloner.py'', ascii ''analyze'', ascii ''t.pptx'',
            ascii ''a.json''] example_fs)) (ascii ''t.pptx'')
     = Some (Pptx example_template)
   \<and> read_file (fst (create_simple example_fs example_cloner [0] [[]] (ascii ''out.pptx'')))
        (template_path example_cloner) = Some (Pptx example_template)
   \<and> read_file (fst (create_from_plan example_fs example_cloner [entry 0 []] (ascii ''out.pptx'')))
        (template_path example_cloner) = Some (Pptx example_template)
   \<and> saved_texts (fst (create_simple example_fs example_cloner [0] [[]] (ascii ''out.pptx'')))
        (ascii ''out.pptx'') = Some [[ascii ''A'']]"
proof -
  let ?create = "[ascii ''ppt_cloner.py'', ascii ''create'', ascii ''t.pptx'', ascii ''plan.json'',
            ascii ''./out.pptx'']"
  let ?analyze = "[ascii ''ppt_cloner.py'', ascii ''analyze'', ascii ''t.pptx'', ascii ''a.json'']"
  have differ: "resolve (example_fs_plan [entry 0 []]) (ascii ''./out.pptx'')
        \<noteq> resolve (example_fs_plan [entry 0 []]) (ascii ''t.pptx'')"
    "resolve example_fs (ascii ''a.json'') \<noteq> resolve example_fs (ascii ''t.pptx'')"
    "resolve example_fs (ascii ''out.pptx'') \<noteq> resolve example_fs (template_path example_cloner)"
    by (simp_all add: eval_fs example_template_path)
  have stored: "read_file (example_fs_plan [entry 0 []]) (ascii ''t.pptx'') = Some (Pptx example_template)"
    "read_file example_fs (ascii ''t.pptx'') = Some (Pptx example_template)"
    "read_file example_fs (template_path example_cloner) = Some (Pptx example_template)"
    by (simp_all add: eval_fs example_template_path)
  have a: "read_file (fst (main ascii_lower ?create (example_fs_plan [entry 0 []]))) (ascii ''t.pptx'')
     = Some (Pptx example_template)"
    using template_unchanged_unless_output[where argv = ?create and lw = ascii_lower
        and fs = "example_fs_plan [entry 0 []]"] differ(1) commands_differ stored(1)
    by simp
  have b: "read_file (fst (main ascii_lower ?analyze example_fs)) (ascii ''t.pptx'')
     = Some (Pptx example_template)"
    using template_unchanged_unless_output[where argv = ?analyze and lw = ascii_lower
        and fs = example_fs] differ(2) commands_differ stored(2)
    by simp
  have c: "read_file (fst (create_simple example_fs example_cloner [0] [[]] (ascii ''out.pptx'')))
        (template_path example_cloner) = Some (Pptx example_template)
   \<and> read_file (fst (create_from_plan example_fs example_cloner [entry 0 []] (ascii ''out.pptx'')))
        (template_path example_cloner) = Some (Pptx example_template)"
    using template_unchanged_unless_output[where fs = example_fs and self = example_cloner
        and slide_indices = "[0]" and replacements_list = "[[]]" and content_plan = "[entry 0 []]"
        and output_path = "ascii ''out.pptx''"] differ(3) stored(3)
    by simp
  have d: "saved_texts (fst (create_simple example_fs example_cloner [0] [[]] (ascii ''out.pptx'')))
        (ascii ''out.pptx'') = Some [[ascii ''A'']]"
    by (simp add: eval_create example_template_path eval_str eval_text)
  show ?thesis
    by (intro conjI a b c[THEN conjunct1] c[THEN conjunct2] d)
qed

end
